theory Spec2Isabelle
  imports Complex_Main
begin

text \<open>
  A shallow embedding of the authoritative game engine: the classes \<open>RiskGame\<close> and
  \<open>CardDeck\<close> of the game logic (deploy, attack, fortify, the end of a turn, the card
  economy) and the \<open>commit_roll\<close> handler of the server's battle session.  Mutation is
  explicit state passing, a \<open>return null\<close> or \<open>return false\<close> is a value, the loops are
  recursive functions, and \<open>Math.random()\<close> is a parameter.
\<close>

section \<open>JavaScript numbers\<close>

text \<open>
  The engine receives its numeric arguments (\<open>count\<close>, \<open>attackTroopCount\<close>, \<open>dice\<close>)
  from client payloads and coerces them with \<open>Number(...)\<close>.  The result of that coercion
  is a JavaScript number: a finite value, \<open>NaN\<close>, \<open>Infinity\<close> or \<open>-Infinity\<close>.  Finite
  values are modelled as exact rationals; every comparison the engine makes is then the
  comparison JavaScript makes, and the arithmetic is exact (the rounding of IEEE doubles
  is not modelled: the engine only adds and subtracts small counts).
\<close>

datatype jsnum = Fin rat | NaN | PosInf | NegInf

text \<open>Truthiness of a number: \<open>0\<close> and \<open>NaN\<close> are falsy.\<close>

fun truthyNum :: "jsnum \<Rightarrow> bool" where
  "truthyNum (Fin q) = (q \<noteq> 0)"
| "truthyNum NaN = False"
| "truthyNum PosInf = True"
| "truthyNum NegInf = True"

text \<open>\<open>x || d\<close> for a number \<open>x\<close> and a finite default \<open>d\<close>.\<close>

definition orNum :: "jsnum \<Rightarrow> rat \<Rightarrow> jsnum" where
  "orNum x d = (if truthyNum x then x else Fin d)"

text \<open>\<open>Math.max(1, x)\<close>.\<close>

fun mathMax1 :: "jsnum \<Rightarrow> jsnum" where
  "mathMax1 (Fin q) = Fin (max 1 q)"
| "mathMax1 NaN = NaN"
| "mathMax1 PosInf = PosInf"
| "mathMax1 NegInf = Fin 1"

text \<open>\<open>x > r\<close>, \<open>x < r\<close> and \<open>x <= r\<close> for a number \<open>x\<close> and a finite \<open>r\<close>; every
  comparison with \<open>NaN\<close> is false.\<close>

fun gtNum :: "jsnum \<Rightarrow> rat \<Rightarrow> bool" where
  "gtNum (Fin q) r = (q > r)"
| "gtNum NaN r = False"
| "gtNum PosInf r = True"
| "gtNum NegInf r = False"

fun ltNum :: "jsnum \<Rightarrow> rat \<Rightarrow> bool" where
  "ltNum (Fin q) r = (q < r)"
| "ltNum NaN r = False"
| "ltNum PosInf r = False"
| "ltNum NegInf r = True"

fun leNum :: "jsnum \<Rightarrow> rat \<Rightarrow> bool" where
  "leNum (Fin q) r = (q \<le> r)"
| "leNum NaN r = False"
| "leNum PosInf r = False"
| "leNum NegInf r = True"

text \<open>\<open>Number.isFinite(x)\<close>.\<close>

fun isFinite :: "jsnum \<Rightarrow> bool" where
  "isFinite (Fin q) = True"
| "isFinite NaN = False"
| "isFinite PosInf = False"
| "isFinite NegInf = False"

section \<open>Cards and the trade-in economy\<close>

text \<open>
  A card as the deck holds it: \<open>territoryId\<close> (\<open>null\<close> for a wild card) and
  \<open>territoryName\<close> (here \<open>cardTerritoryId\<close>, \<open>cardTerritoryName\<close>), the type tag \<open>type\<close>
  (here \<open>ctype\<close>), and the identifier minted at draw time.  The identifier
  \<open>card_N\<close> is modelled by its number \<open>N\<close>; a card that has no \<open>uid\<close> yet (a catalog card)
  has \<open>None\<close>.  A missing or empty type tag is the empty string (both are falsy).
\<close>

record card =
  cardTerritoryId :: "string option"
  cardTerritoryName :: string
  ctype :: string
  uid :: "nat option"

definition CARD_TYPES :: "string list" where
  "CARD_TYPES = [''INFANTRY'', ''CAVALRY'', ''ARTILLERY'']"

definition WILD_TYPE :: string where
  "WILD_TYPE = ''WILD''"

definition NEUTRAL_ID :: string where
  "NEUTRAL_ID = ''neutral''"

text \<open>\<open>getTradeInReward(tradeNumber)\<close>: the argument is the number after \<open>Number(...)\<close>.\<close>

definition getTradeInReward :: "jsnum \<Rightarrow> jsnum" where
  "getTradeInReward tradeNumber =
     (case mathMax1 (orNum tradeNumber 1) of
        Fin n \<Rightarrow> if n \<le> 5 then Fin (2 * n + 2) else Fin (15 + (n - 6) * 5)
      | NaN \<Rightarrow> NaN
      | PosInf \<Rightarrow> PosInf
      | NegInf \<Rightarrow> NegInf)"

text \<open>
  \<open>isValidTradeSet(cards)\<close>.  \<open>new Set(nonWildTypes).size\<close> is the number of distinct
  tags, \<open>length (remdups ...)\<close>.
\<close>

definition isValidTradeSet :: "card list \<Rightarrow> bool" where
  "isValidTradeSet cards =
     (if length cards \<noteq> 3 then False
      else
        let wildCount = length (filter (\<lambda>c. ctype c = WILD_TYPE) cards);
            nonWildTypes = map ctype (filter (\<lambda>c. ctype c \<noteq> [] \<and> ctype c \<noteq> WILD_TYPE) cards);
            sameType = (length nonWildTypes = 0 \<or> length (remdups nonWildTypes) = 1)
        in if sameType then True
           else
             let present = remdups nonWildTypes;
                 missingCount = length (filter (\<lambda>t. t \<notin> set present) CARD_TYPES)
             in missingCount \<le> wildCount)"

text \<open>\<open>canTradeAnySet(cards)\<close>: the three nested index loops, as all increasing index
  triples in the loops' order.\<close>

definition canTradeAnySet :: "card list \<Rightarrow> bool" where
  "canTradeAnySet cards =
     (if length cards < 3 then False
      else list_ex (\<lambda>i. list_ex (\<lambda>j. list_ex (\<lambda>k.
             isValidTradeSet [cards ! i, cards ! j, cards ! k])
             [j + 1 ..< length cards]) [i + 1 ..< length cards - 1]) [0 ..< length cards - 2])"

text \<open>
  The validity rule in the specification's words: exactly three cards, and either all
  non-wild cards share one type, or the number of troop types absent among the set's
  non-wild cards does not exceed the number of wild cards.
\<close>

definition nonWildTypesOf :: "card list \<Rightarrow> string set" where
  "nonWildTypesOf cards = {ctype c | c. c \<in> set cards \<and> ctype c \<noteq> [] \<and> ctype c \<noteq> WILD_TYPE}"

definition validTradeSet_spec :: "card list \<Rightarrow> bool" where
  "validTradeSet_spec cards =
     (length cards = 3 \<and>
      ((\<exists>t. nonWildTypesOf cards \<subseteq> {t}) \<or>
       card (set CARD_TYPES - nonWildTypesOf cards)
         \<le> card {i. i < length cards \<and> ctype (cards ! i) = WILD_TYPE}))"

section \<open>The match\<close>

text \<open>
  The state of \<open>RiskGame\<close>.  A territory and a player are the objects the engine keeps in
  \<open>this.map\<close> and \<open>this.players\<close>; \<open>id\<close> is \<open>tid\<close> for a territory and \<open>pid\<close> for a
  player, \<open>this.map\<close> is \<open>gmap\<close>.  \<open>ownerId\<close> and \<open>winnerId\<close> are \<open>null\<close> (\<open>None\<close>) or a
  string.  The phase is one of the five strings the engine ever assigns.  Troop counts and
  pools are finite numbers.  The field \<open>troops\<close> of a player, which the engine sets to 0
  and only recomputes in snapshots, is left out.
\<close>

datatype phase = LOBBY | SETUP | GLOBAL_REINFORCE | TURN_ATTACK | TURN_FORTIFY

record territory =
  tid :: string
  tname :: string
  continent :: string
  neighbors :: "string list"
  ownerId :: "string option"
  troops :: rat

record player =
  pid :: string
  displayName :: string
  color :: string
  pool :: rat
  ready :: bool
  hand :: "card list"
  conqueredThisTurn :: bool

text \<open>An entry of \<open>mapData.continents\<close> (the catalog is not part of the sources; the
  operations that read it take it as the parameter \<open>conts\<close>); a missing \<open>bonus\<close> counts
  as 0.\<close>

record continentData =
  cname :: string
  bonus :: rat

record cardDeck =
  nextUid :: nat
  baseCards :: "card list"
  drawPile :: "card list"
  discardPile :: "card list"

text \<open>The object \<open>attack\<close> returns, and the \<open>lastAttack\<close> summary that extends it.\<close>

record attackResult =
  attackerDice :: "int list"
  defenderDice :: "int list"
  attackTroopCount :: rat
  attackerLosses :: nat
  defenderLosses :: nat
  conquered :: bool
  resultWinnerId :: "string option"

record attackSummary = attackResult +
  summaryId :: nat
  summaryAttackerId :: string
  summaryFromId :: string
  summaryToId :: string

record game =
  players :: "player list"
  phase :: phase
  isFirstRound :: bool
  currentPlayerIndex :: nat
  lastAttack :: "attackSummary option"
  lastAttackId :: nat
  winnerId :: "string option"
  battleHistory :: "attackSummary list"
  globalTradeInCount :: nat
  pendingCardEarned :: "(string \<times> card) option"
  deck :: cardDeck
  gmap :: "territory list"

text \<open>Truthiness of a nullable string: \<open>null\<close> and the empty string are falsy.\<close>

fun truthyStr :: "string option \<Rightarrow> bool" where
  "truthyStr None = False"
| "truthyStr (Some s) = (s \<noteq> [])"

text \<open>A mutation of the first object of an array that satisfies \<open>P\<close>: the object
  \<open>Array.prototype.find\<close> returned.\<close>

fun updFirst :: "('a \<Rightarrow> bool) \<Rightarrow> ('a \<Rightarrow> 'a) \<Rightarrow> 'a list \<Rightarrow> 'a list" where
  "updFirst P f [] = []"
| "updFirst P f (x # xs) = (if P x then f x # xs else x # updFirst P f xs)"

definition getCurrentPlayer :: "game \<Rightarrow> player option" where
  "getCurrentPlayer g =
     (if currentPlayerIndex g < length (players g)
      then Some (players g ! currentPlayerIndex g) else None)"

definition getPlayer :: "game \<Rightarrow> string \<Rightarrow> player option" where
  "getPlayer g playerId = find (\<lambda>p. pid p = playerId) (players g)"

definition getTerritory :: "game \<Rightarrow> string \<Rightarrow> territory option" where
  "getTerritory g territoryId = find (\<lambda>t. tid t = territoryId) (gmap g)"

text \<open>The mutations \<open>territory.field = ...\<close> and \<open>player.field = ...\<close> on the object found
  by \<open>getTerritory\<close> and \<open>getPlayer\<close>.\<close>

definition updTerritory :: "string \<Rightarrow> (territory \<Rightarrow> territory) \<Rightarrow> game \<Rightarrow> game" where
  "updTerritory territoryId f g = g\<lparr>gmap := updFirst (\<lambda>t. tid t = territoryId) f (gmap g)\<rparr>"

definition updPlayer :: "string \<Rightarrow> (player \<Rightarrow> player) \<Rightarrow> game \<Rightarrow> game" where
  "updPlayer playerId f g = g\<lparr>players := updFirst (\<lambda>p. pid p = playerId) f (players g)\<rparr>"

definition getContinentBonus :: "continentData list \<Rightarrow> game \<Rightarrow> string \<Rightarrow> rat" where
  "getContinentBonus conts g playerId =
     fold (\<lambda>c totalBonus.
             let territories = filter (\<lambda>t. continent t = cname c) (gmap g)
             in if territories = [] then totalBonus
                else if list_all (\<lambda>t. ownerId t = Some playerId) territories
                     then totalBonus + bonus c else totalBonus)
          conts 0"

definition calculateReinforcements :: "continentData list \<Rightarrow> game \<Rightarrow> string \<Rightarrow> rat" where
  "calculateReinforcements conts g playerId =
     (let owned = filter (\<lambda>t. ownerId t = Some playerId) (gmap g);
          reinforcements = length owned div 3;
          reinforcements = (if reinforcements < 3 then 3 else reinforcements)
      in of_nat reinforcements + getContinentBonus conts g playerId)"

definition startNewRound :: "continentData list \<Rightarrow> game \<Rightarrow> game" where
  "startNewRound conts g =
     g\<lparr>players := map (\<lambda>p. p\<lparr>pool := calculateReinforcements conts g (pid p)\<rparr>) (players g),
       phase := GLOBAL_REINFORCE,
       currentPlayerIndex := 0\<rparr>"

definition areAllPoolsEmpty :: "game \<Rightarrow> bool" where
  "areAllPoolsEmpty g = list_all (\<lambda>p. pool p = 0) (players g)"

subsection \<open>deploy\<close>

text \<open>The two mutations of a successful deploy: \<open>territory.troops += amount\<close> and
  \<open>player.pool -= amount\<close>.\<close>

definition deployApply :: "game \<Rightarrow> string \<Rightarrow> string \<Rightarrow> rat \<Rightarrow> game" where
  "deployApply g playerId territoryId amount =
     updPlayer playerId (\<lambda>p. p\<lparr>pool := pool p - amount\<rparr>)
       (updTerritory territoryId (\<lambda>t. t\<lparr>troops := troops t + amount\<rparr>) g)"

text \<open>The phase-specific completion at the end of \<open>deploy\<close>; \<open>playerPool\<close> is
  \<open>player.pool\<close> after the deduction.\<close>

definition deployAdvance :: "continentData list \<Rightarrow> game \<Rightarrow> rat \<Rightarrow> game" where
  "deployAdvance conts g playerPool =
     (if phase g = SETUP then
        (if areAllPoolsEmpty g then
           (let g1 = g\<lparr>currentPlayerIndex := 0\<rparr>
            in if isFirstRound g1 then g1\<lparr>phase := TURN_ATTACK\<rparr> else startNewRound conts g1)
         else if playerPool = 0 then
           g\<lparr>currentPlayerIndex := (currentPlayerIndex g + 1) mod length (players g)\<rparr>
         else g)
      else if phase g = GLOBAL_REINFORCE then
        (if playerPool = 0 then
           (let g1 = g\<lparr>currentPlayerIndex := (currentPlayerIndex g + 1) mod length (players g)\<rparr>
            in if currentPlayerIndex g1 = 0
               then g1\<lparr>phase := TURN_ATTACK, currentPlayerIndex := 0\<rparr> else g1)
         else g)
      else g)"

text \<open>
  \<open>deploy(playerId, territoryId, count)\<close>; \<open>count\<close> is the number \<open>Number(count)\<close>.
  The amount \<open>Math.max(1, Number(count) || 0)\<close> is never \<open>NaN\<close> or \<open>-Infinity\<close>, and
  \<open>Infinity\<close> exceeds every pool, so the three branches for an amount that is not finite
  are never taken.
\<close>

definition deploy :: "continentData list \<Rightarrow> game \<Rightarrow> string \<Rightarrow> string \<Rightarrow> jsnum \<Rightarrow> bool \<times> game" where
  "deploy conts g playerId territoryId count =
     (if truthyStr (winnerId g) then (False, g)
      else (case getPlayer g playerId of
        None \<Rightarrow> (False, g)
      | Some player \<Rightarrow>
         (case getCurrentPlayer g of
            None \<Rightarrow> (False, g)
          | Some currentPlayer \<Rightarrow>
             (if pid currentPlayer \<noteq> playerId then (False, g)
              else (case getTerritory g territoryId of
                None \<Rightarrow> (False, g)
              | Some territory \<Rightarrow>
                 (if ownerId territory \<noteq> Some playerId then (False, g)
                  else (let amount = mathMax1 (orNum count 0)
                        in (if gtNum amount (pool player) then (False, g)
                            else (case amount of
                              Fin a \<Rightarrow>
                                (True, deployAdvance conts (deployApply g playerId territoryId a)
                                         (pool player - a))
                            | NaN \<Rightarrow> (False, g)
                            | PosInf \<Rightarrow> (False, g)
                            | NegInf \<Rightarrow> (False, g))))))))))"

subsection \<open>attack\<close>

text \<open>
  The random source: \<open>rnd k\<close> is the value the \<open>k\<close>-th call of \<open>Math.random()\<close> made
  during the operation returns, a number in \<open>[0, 1)\<close>.  A die is
  \<open>Math.floor(Math.random() * 6) + 1\<close>.
\<close>

definition dieFace :: "rat \<Rightarrow> int" where
  "dieFace u = \<lfloor>u * 6\<rfloor> + 1"

text \<open>\<open>sort((a, b) => b - a)\<close>: descending order.\<close>

definition sortDesc :: "int list \<Rightarrow> int list" where
  "sortDesc xs = rev (sort xs)"

text \<open>\<open>rollDice(count)\<close>, drawing the random values \<open>rnd off, rnd (off + 1), ...\<close>;
  \<open>count\<close> is the length of the array \<open>Array.from({ length: ... })\<close> builds.\<close>

definition rollDice :: "(nat \<Rightarrow> rat) \<Rightarrow> nat \<Rightarrow> nat \<Rightarrow> int list" where
  "rollDice rnd off count = sortDesc (map (\<lambda>i. dieFace (rnd (off + i))) [0 ..< count])"

text \<open>The comparison loop \<open>for (let i = 0; i < comparisons; i += 1)\<close>, on the pair
  \<open>(attackerLosses, defenderLosses)\<close>.\<close>

function compareLoop :: "int list \<Rightarrow> int list \<Rightarrow> nat \<Rightarrow> nat \<Rightarrow> nat \<times> nat \<Rightarrow> nat \<times> nat" where
  "compareLoop aDice dDice comparisons i (aL, dL) =
     (if i < comparisons then
        (if aDice ! i > dDice ! i
         then compareLoop aDice dDice comparisons (i + 1) (aL, dL + 1)
         else compareLoop aDice dDice comparisons (i + 1) (aL + 1, dL))
      else (aL, dL))"
  by pat_completeness auto
termination
  by (relation "measure (\<lambda>(aDice, dDice, comparisons, i, l). comparisons - i)") auto

declare compareLoop.simps [simp del]

definition getPlayerTerritoryCount :: "game \<Rightarrow> string \<Rightarrow> nat" where
  "getPlayerTerritoryCount g playerId =
     fold (\<lambda>t n. n + (if ownerId t = Some playerId then 1 else 0)) (gmap g) 0"

text \<open>\<open>checkForWinner(playerId)\<close>: the returned id (or \<open>null\<close>) and the state.\<close>

definition checkForWinner :: "game \<Rightarrow> string \<Rightarrow> string option \<times> game" where
  "checkForWinner g playerId =
     (if playerId = [] then (None, g)
      else if getPlayerTerritoryCount g playerId \<ge> length (gmap g)
           then (Some playerId, g\<lparr>winnerId := Some playerId\<rparr>)
           else (None, g))"

definition pushCapped :: "'a list \<Rightarrow> 'a \<Rightarrow> nat \<Rightarrow> 'a list" where
  "pushCapped list entry cap =
     (let l = list @ [entry] in if length l > cap then tl l else l)"

text \<open>
  The preconditions of \<open>attack(playerId, fromId, toId, attackTroopCount)\<close>, in the
  source's order; \<open>requested\<close> is \<open>Number(attackTroopCount)\<close>.  \<open>None\<close> is the \<open>return null\<close>
  of a failed check; otherwise the finite value of \<open>requested\<close>.
\<close>

definition attackChecks :: "game \<Rightarrow> string \<Rightarrow> string \<Rightarrow> string \<Rightarrow> jsnum \<Rightarrow> rat option" where
  "attackChecks g playerId fromId toId requested =
     (if truthyStr (winnerId g) then None
      else if phase g \<noteq> TURN_ATTACK then None
      else if map_option pid (getCurrentPlayer g) \<noteq> Some playerId then None
      else (case (getTerritory g fromId, getTerritory g toId) of
        (Some from, Some to) \<Rightarrow>
          (let isNeutralTarget = (ownerId to = Some NEUTRAL_ID);
               isEnemyPlayerTarget = (truthyStr (ownerId to) \<and> ownerId to \<noteq> Some playerId)
           in if ownerId from \<noteq> Some playerId then None
              else if \<not> isNeutralTarget \<and> \<not> isEnemyPlayerTarget then None
              else if toId \<notin> set (neighbors from) then None
              else (let maxAttackable = troops from - 1
                    in if maxAttackable < 1 then None
                       else if \<not> isFinite requested then None
                       else if ltNum requested 1 then None
                       else if gtNum requested maxAttackable then None
                       else if gtNum requested 3 then None
                       else (case requested of
                               Fin r \<Rightarrow> Some r
                             | NaN \<Rightarrow> None
                             | PosInf \<Rightarrow> None
                             | NegInf \<Rightarrow> None)))
      | (_, _) \<Rightarrow> None))"

text \<open>
  The resolution of an attack whose checks passed with the finite dice count \<open>r\<close>: the
  statements from \<open>const attackerDiceCount = requested\<close> to the \<open>return\<close>.  Every
  statement that mutates \<open>from\<close>, \<open>to\<close> or the attacking player is applied to the state
  in the source's order, and \<open>to.troops\<close> is read back from the state.
  \<open>Array.from({ length: r })\<close> has \<open>\<lfloor>r\<rfloor>\<close> elements.
\<close>

definition attackResolve :: "(nat \<Rightarrow> rat) \<Rightarrow> game \<Rightarrow> string \<Rightarrow> string \<Rightarrow> string \<Rightarrow> rat \<Rightarrow> attackResult \<times> game" where
  "attackResolve rnd g playerId fromId toId r =
     (let toTroops0 = (case getTerritory g toId of Some to \<Rightarrow> troops to | None \<Rightarrow> 0);
          attackerDiceCount = nat \<lfloor>r\<rfloor>;
          defenderDiceCount = (if toTroops0 \<ge> 2 then 2 else 1);
          aDice = rollDice rnd 0 attackerDiceCount;
          dDice = rollDice rnd attackerDiceCount defenderDiceCount;
          comparisons = min (length aDice) (length dDice);
          (aLosses, dLosses) = compareLoop aDice dDice comparisons 0 (0, 0);
          g1 = updTerritory fromId (\<lambda>t. t\<lparr>troops := troops t - of_nat aLosses\<rparr>) g;
          g2 = updTerritory toId (\<lambda>t. t\<lparr>troops := troops t - of_nat dLosses\<rparr>) g1;
          toTroops2 = (case getTerritory g2 toId of Some to \<Rightarrow> troops to | None \<Rightarrow> 0);
          (isConquered, winner, g7) =
            (if toTroops2 \<le> 0 then
               (let g3 = updTerritory toId (\<lambda>t. t\<lparr>ownerId := Some playerId\<rparr>) g2;
                    g4 = updPlayer playerId (\<lambda>p. p\<lparr>conqueredThisTurn := True\<rparr>) g3;
                    survivors = max 0 (r - of_nat aLosses);
                    moveCount = max 1 survivors;
                    g5 = updTerritory fromId (\<lambda>t. t\<lparr>troops := troops t - moveCount\<rparr>) g4;
                    g6 = updTerritory toId (\<lambda>t. t\<lparr>troops := moveCount\<rparr>) g5;
                    (w, g7) = checkForWinner g6 playerId
                in (True, w, g7))
             else (False, None, g2));
          res = \<lparr>attackerDice = aDice, defenderDice = dDice, attackTroopCount = r,
                 attackerLosses = aLosses, defenderLosses = dLosses,
                 conquered = isConquered, resultWinnerId = winner\<rparr>;
          summary = attackResult.extend res
                      \<lparr>summaryId = lastAttackId g7 + 1, summaryAttackerId = playerId,
                       summaryFromId = fromId, summaryToId = toId\<rparr>;
          g8 = g7\<lparr>lastAttackId := lastAttackId g7 + 1,
                  lastAttack := Some summary,
                  battleHistory := pushCapped (battleHistory g7) summary 50\<rparr>
      in (res, g8))"

definition attack :: "(nat \<Rightarrow> rat) \<Rightarrow> game \<Rightarrow> string \<Rightarrow> string \<Rightarrow> string \<Rightarrow> jsnum \<Rightarrow> attackResult option \<times> game" where
  "attack rnd g playerId fromId toId requested =
     (case attackChecks g playerId fromId toId requested of
        None \<Rightarrow> (None, g)
      | Some r \<Rightarrow> (let (res, g') = attackResolve rnd g playerId fromId toId r in (Some res, g')))"

subsection \<open>The card deck and the end of a turn\<close>

text \<open>
  \<open>CardDeck.shuffle\<close>: the Fisher-Yates loop \<open>for (let i = arr.length - 1; i > 0; i -= 1)\<close>
  with \<open>j = Math.floor(Math.random() * (i + 1))\<close> and the swap of \<open>arr[i]\<close> and \<open>arr[j]\<close>;
  \<open>k\<close> counts the random values drawn so far.
\<close>

fun shuffleLoop :: "(nat \<Rightarrow> rat) \<Rightarrow> nat \<Rightarrow> nat \<Rightarrow> 'a list \<Rightarrow> 'a list" where
  "shuffleLoop rnd k 0 arr = arr"
| "shuffleLoop rnd k (Suc i) arr =
     (let j = nat \<lfloor>rnd k * of_nat (Suc i + 1)\<rfloor>
      in shuffleLoop rnd (k + 1) i (arr[Suc i := arr ! j, j := arr ! Suc i]))"

definition shuffle :: "(nat \<Rightarrow> rat) \<Rightarrow> 'a list \<Rightarrow> 'a list" where
  "shuffle rnd cards = shuffleLoop rnd 0 (length cards - 1) cards"

text \<open>\<open>CardDeck.draw()\<close>: \<open>pop\<close> takes the last card of the draw pile.\<close>

definition draw :: "(nat \<Rightarrow> rat) \<Rightarrow> cardDeck \<Rightarrow> card option \<times> cardDeck" where
  "draw rnd d =
     (let d1 = (if drawPile d = [] \<and> discardPile d \<noteq> []
                then d\<lparr>drawPile := shuffle rnd (discardPile d), discardPile := []\<rparr>
                else d)
      in if drawPile d1 = [] then (None, d1)
         else (Some ((last (drawPile d1))\<lparr>uid := Some (nextUid d1)\<rparr>),
               d1\<lparr>drawPile := butlast (drawPile d1), nextUid := nextUid d1 + 1\<rparr>))"

text \<open>\<open>grantTurnCardIfEligible(player)\<close> for the player object \<open>players[idx]\<close>.\<close>

definition grantTurnCardIfEligible :: "(nat \<Rightarrow> rat) \<Rightarrow> game \<Rightarrow> nat \<Rightarrow> card option \<times> game" where
  "grantTurnCardIfEligible rnd g idx =
     (if \<not> conqueredThisTurn (players g ! idx) then (None, g)
      else (case draw rnd (deck g) of
              (None, d) \<Rightarrow> (None, g\<lparr>deck := d\<rparr>)
            | (Some c, d) \<Rightarrow>
                (Some c,
                 g\<lparr>deck := d,
                   players := (players g)[idx := (players g ! idx)\<lparr>hand := hand (players g ! idx) @ [c]\<rparr>]\<rparr>)))"

definition nextTurn :: "(nat \<Rightarrow> rat) \<Rightarrow> continentData list \<Rightarrow> game \<Rightarrow> game" where
  "nextTurn rnd conts g =
     (if players g = [] then g\<lparr>currentPlayerIndex := 0\<rparr>
      else
        (let g1 = g\<lparr>pendingCardEarned := None\<rparr>;
             g3 = (case getCurrentPlayer g1 of
                     None \<Rightarrow> g1
                   | Some currentPlayer \<Rightarrow>
                       (let (earnedCard, g2) = grantTurnCardIfEligible rnd g1 (currentPlayerIndex g1);
                            g2' = (case earnedCard of
                                     None \<Rightarrow> g2
                                   | Some c \<Rightarrow> g2\<lparr>pendingCardEarned := Some (pid currentPlayer, c)\<rparr>)
                        in g2'\<lparr>players := (players g2')[currentPlayerIndex g2' :=
                                   (players g2' ! currentPlayerIndex g2')\<lparr>conqueredThisTurn := False\<rparr>]\<rparr>));
             g4 = g3\<lparr>currentPlayerIndex := (currentPlayerIndex g3 + 1) mod length (players g3)\<rparr>
         in if currentPlayerIndex g4 = 0
            then startNewRound conts (if isFirstRound g4 then g4\<lparr>isFirstRound := False\<rparr> else g4)
            else g4\<lparr>phase := TURN_ATTACK\<rparr>))"

text \<open>\<open>nextPhase()\<close>: the returned flag and the state.\<close>

definition nextPhase :: "(nat \<Rightarrow> rat) \<Rightarrow> continentData list \<Rightarrow> game \<Rightarrow> bool \<times> game" where
  "nextPhase rnd conts g =
     (if truthyStr (winnerId g) then (False, g)
      else if phase g = GLOBAL_REINFORCE then
        (case getCurrentPlayer g of
           Some currentPlayer \<Rightarrow>
             (if pool currentPlayer = 0 then
                (let g1 = g\<lparr>currentPlayerIndex := (currentPlayerIndex g + 1) mod length (players g)\<rparr>
                 in (True, if currentPlayerIndex g1 = 0 then g1\<lparr>phase := TURN_ATTACK\<rparr> else g1))
              else (True, g))
         | None \<Rightarrow> (True, g))
      else if phase g = TURN_ATTACK then (True, g\<lparr>phase := TURN_FORTIFY\<rparr>)
      else if phase g = TURN_FORTIFY then (True, nextTurn rnd conts g)
      else (True, g))"

subsection \<open>fortify\<close>

text \<open>
  The inner loop of \<open>isConnected\<close> over \<open>current.neighbors\<close>, on the pair
  \<open>(visited, queue)\<close>: a neighbour that is owned and not yet visited is added to
  \<open>visited\<close> and pushed on the queue.
\<close>

definition visitStep :: "string list \<Rightarrow> string \<Rightarrow> string list \<times> string list \<Rightarrow> string list \<times> string list" where
  "visitStep ownedIds neighborId vq =
     (if neighborId \<notin> set ownedIds then vq
      else if neighborId \<in> set (fst vq) then vq
      else (neighborId # fst vq, snd vq @ [neighborId]))"

lemma visitStep_measure:
  "card (set ownedIds - set (fst (visitStep ownedIds n vq))) + length (snd (visitStep ownedIds n vq))
   = card (set ownedIds - set (fst vq)) + length (snd vq)"
proof (cases "n \<notin> set ownedIds \<or> n \<in> set (fst vq)")
  case True
  then show ?thesis by (auto simp: visitStep_def)
next
  case False
  then have n: "n \<in> set ownedIds - set (fst vq)" by simp
  have "set ownedIds - set (n # fst vq) = (set ownedIds - set (fst vq)) - {n}" by auto
  then have "card (set ownedIds - set (n # fst vq)) = card (set ownedIds - set (fst vq)) - 1"
    using n by (simp del: set_simps)
  moreover have "card (set ownedIds - set (fst vq)) > 0"
    using n by (metis card_gt_0_iff empty_iff finite_Diff finite_set)
  ultimately show ?thesis using False by (simp add: visitStep_def)
qed

lemma fold_visitStep_measure:
  "card (set ownedIds - set (fst (fold (visitStep ownedIds) ns vq)))
     + length (snd (fold (visitStep ownedIds) ns vq))
   = card (set ownedIds - set (fst vq)) + length (snd vq)"
  by (induction ns arbitrary: vq) (simp_all add: visitStep_measure)

text \<open>The \<open>while (queue.length)\<close> loop of \<open>isConnected\<close>: \<open>queue.shift()\<close> takes the
  head of the queue.\<close>

function bfsLoop :: "game \<Rightarrow> string list \<Rightarrow> string \<Rightarrow> string list \<Rightarrow> string list \<Rightarrow> bool" where
  "bfsLoop g ownedIds toId [] visited = False"
| "bfsLoop g ownedIds toId (currentId # queue) visited =
     (if currentId = toId then True
      else (case getTerritory g currentId of
              None \<Rightarrow> bfsLoop g ownedIds toId queue visited
            | Some current \<Rightarrow>
                bfsLoop g ownedIds toId
                  (snd (fold (visitStep ownedIds) (neighbors current) (visited, queue)))
                  (fst (fold (visitStep ownedIds) (neighbors current) (visited, queue)))))"
  by pat_completeness auto
termination
proof (relation "measure (\<lambda>(g, ownedIds, toId, queue, visited).
                   card (set ownedIds - set visited) + length queue)")
  show "wf (measure (\<lambda>(g, ownedIds, toId, queue, visited).
                   card (set ownedIds - set visited) + length queue))"
    by simp
next
  fix g :: game and ownedIds :: "string list" and toId currentId :: string
    and queue visited :: "string list"
  show "((g, ownedIds, toId, queue, visited), (g, ownedIds, toId, currentId # queue, visited))
        \<in> measure (\<lambda>(g, ownedIds, toId, queue, visited).
                   card (set ownedIds - set visited) + length queue)"
    by simp
next
  fix g :: game and ownedIds :: "string list" and toId currentId :: string
    and queue visited :: "string list" and current :: territory
  show "((g, ownedIds, toId,
          snd (fold (visitStep ownedIds) (neighbors current) (visited, queue)),
          fst (fold (visitStep ownedIds) (neighbors current) (visited, queue))),
         (g, ownedIds, toId, currentId # queue, visited))
        \<in> measure (\<lambda>(g, ownedIds, toId, queue, visited).
                   card (set ownedIds - set visited) + length queue)"
    using fold_visitStep_measure [of ownedIds "neighbors current" "(visited, queue)"]
    by simp
qed

definition isConnected :: "game \<Rightarrow> string \<Rightarrow> string \<Rightarrow> string \<Rightarrow> bool" where
  "isConnected g playerId fromId toId =
     (let ownedIds = map tid (filter (\<lambda>t. ownerId t = Some playerId) (gmap g))
      in if fromId \<notin> set ownedIds then False
         else if toId \<notin> set ownedIds then False
         else bfsLoop g ownedIds toId [fromId] [fromId])"

text \<open>
  \<open>fortify(playerId, fromId, toId, count)\<close>; \<open>count\<close> is the number \<open>Number(count)\<close>.
  \<open>moveCount = Math.max(1, Number(count) || 1)\<close> is never \<open>NaN\<close> or \<open>-Infinity\<close>, and no
  troop count exceeds \<open>Infinity\<close>, which the test \<open>from.troops <= moveCount\<close> therefore
  rejects.
\<close>

definition fortify :: "(nat \<Rightarrow> rat) \<Rightarrow> continentData list \<Rightarrow> game \<Rightarrow> string \<Rightarrow> string \<Rightarrow> string \<Rightarrow> jsnum \<Rightarrow> bool \<times> game" where
  "fortify rnd conts g playerId fromId toId count =
     (if truthyStr (winnerId g) then (False, g)
      else if phase g \<noteq> TURN_FORTIFY then (False, g)
      else if map_option pid (getCurrentPlayer g) \<noteq> Some playerId then (False, g)
      else if fromId = [] \<or> toId = [] \<or> fromId = toId then (False, g)
      else (case (getTerritory g fromId, getTerritory g toId) of
        (Some from, Some to) \<Rightarrow>
          (if ownerId from \<noteq> Some playerId then (False, g)
           else if ownerId to \<noteq> Some playerId then (False, g)
           else if \<not> isConnected g playerId fromId toId then (False, g)
           else (case mathMax1 (orNum count 1) of
                   Fin moveCount \<Rightarrow>
                     (if troops from \<le> moveCount then (False, g)
                      else (let g1 = updTerritory fromId (\<lambda>t. t\<lparr>troops := troops t - moveCount\<rparr>) g;
                                g2 = updTerritory toId (\<lambda>t. t\<lparr>troops := troops t + moveCount\<rparr>) g1
                            in (True, nextTurn rnd conts g2)))
                 | NaN \<Rightarrow> (False, g)
                 | PosInf \<Rightarrow> (False, g)
                 | NegInf \<Rightarrow> (False, g)))
      | (_, _) \<Rightarrow> (False, g)))"

section \<open>The battle session of the server\<close>

text \<open>
  \<open>activeBattle\<close>, the session object the server keeps between \<open>initiate_attack\<close> and the
  resolution; its fields carry the prefix \<open>ab\<close>.  The dice counts are JavaScript numbers:
  \<open>maxAttackerDice\<close> and \<open>maxDefenderDice\<close> come from \<open>prepareAttack\<close>, the committed counts
  start at \<open>0\<close>.
\<close>

record battle =
  abBattleId :: string
  abAttackerId :: string
  abDefenderId :: string
  abFromId :: string
  abToId :: string
  abFromName :: string
  abToName :: string
  abMaxAttackerDice :: rat
  abMaxDefenderDice :: rat
  abAttackerRolled :: bool
  abDefenderRolled :: bool
  abAttackerDice :: rat
  abDefenderDice :: rat
  abDefenderAuto :: bool

text \<open>The arguments \<open>resolveActiveBattle\<close> hands to \<open>game.resolveAttack\<close>.\<close>

record resolveCall =
  rcAttackerId :: string
  rcFromId :: string
  rcToId :: string
  rcAttackerDiceCount :: rat
  rcDefenderDiceCount :: rat

text \<open>
  \<open>maybeResolveActiveBattle\<close> followed by \<open>resolveActiveBattle\<close>: while a side has not
  rolled the session stays; once both have, the session is cleared and the resolver is
  called with \<open>battle.attackerDice || battle.maxAttackerDice\<close> and the defender's
  counterpart.  The result is the new \<open>activeBattle\<close> and the call made, if any.
\<close>

definition maybeResolveActiveBattle :: "battle \<Rightarrow> battle option \<times> resolveCall option" where
  "maybeResolveActiveBattle b =
     (if \<not> abAttackerRolled b then (Some b, None)
      else if \<not> abDefenderRolled b then (Some b, None)
      else (None,
            Some \<lparr>rcAttackerId = abAttackerId b, rcFromId = abFromId b, rcToId = abToId b,
                  rcAttackerDiceCount =
                    (if abAttackerDice b \<noteq> 0 then abAttackerDice b else abMaxAttackerDice b),
                  rcDefenderDiceCount =
                    (if abDefenderDice b \<noteq> 0 then abDefenderDice b else abMaxDefenderDice b)\<rparr>))"

text \<open>
  The \<open>commit_roll\<close> handler for the socket \<open>socketId\<close> and the payload
  \<open>{ battleId, dice }\<close>; \<open>dice\<close> is the number \<open>Number(dice)\<close>, \<open>battleId\<close> is \<open>None\<close> when the
  payload has none.
\<close>

definition commitRoll :: "battle option \<Rightarrow> string \<Rightarrow> string option \<Rightarrow> jsnum \<Rightarrow> battle option \<times> resolveCall option" where
  "commitRoll activeBattle socketId battleId dice =
     (case activeBattle of
        None \<Rightarrow> (None, None)
      | Some b \<Rightarrow>
          (if truthyStr battleId \<and> abBattleId b \<noteq> [] \<and> battleId \<noteq> Some (abBattleId b)
           then (Some b, None)
           else (case dice of
                   Fin requestedDice \<Rightarrow>
                     (if socketId = abAttackerId b then
                        maybeResolveActiveBattle
                          (b\<lparr>abAttackerDice := max 1 (min (abMaxAttackerDice b) requestedDice),
                             abAttackerRolled := True\<rparr>)
                      else if socketId = abDefenderId b \<and> \<not> abDefenderAuto b then
                        maybeResolveActiveBattle
                          (b\<lparr>abDefenderDice := max 1 (min (abMaxDefenderDice b) requestedDice),
                             abDefenderRolled := True\<rparr>)
                      else (Some b, None))
                 | NaN \<Rightarrow> (Some b, None)
                 | PosInf \<Rightarrow> (Some b, None)
                 | NegInf \<Rightarrow> (Some b, None))))"

section \<open>Specification-side notions\<close>

text \<open>The counts \<open>0\<close>, negative, \<open>NaN\<close> and \<open>-Infinity\<close>: the numbers a \<open>count\<close> that is
  zero, negative or not numeric coerces to.\<close>

fun nonPositiveCount :: "jsnum \<Rightarrow> bool" where
  "nonPositiveCount (Fin q) = (q \<le> 0)"
| "nonPositiveCount NaN = True"
| "nonPositiveCount PosInf = False"
| "nonPositiveCount NegInf = True"

text \<open>
  The losses of a battle in the specification's words: the two descending dice lists
  are paired position by position; each pair in which the attacker's die is strictly
  higher costs the defender one troop, every other pair (ties included) costs the
  attacker one.  The result is \<open>(attacker losses, defender losses)\<close>.
\<close>

definition lossesSpec :: "int list \<Rightarrow> int list \<Rightarrow> nat \<times> nat" where
  "lossesSpec aDice dDice =
     (length (filter (\<lambda>(a, d). \<not> a > d) (zip aDice dDice)),
      length (filter (\<lambda>(a, d). a > d) (zip aDice dDice)))"

text \<open>The dice of an attack with the dice count \<open>r\<close> on the territory \<open>dst\<close>, and the
  losses they decide.\<close>

definition attackerRoll :: "(nat \<Rightarrow> rat) \<Rightarrow> rat \<Rightarrow> int list" where
  "attackerRoll rnd r = rollDice rnd 0 (nat \<lfloor>r\<rfloor>)"

definition defenderRoll :: "(nat \<Rightarrow> rat) \<Rightarrow> rat \<Rightarrow> territory \<Rightarrow> int list" where
  "defenderRoll rnd r dst = rollDice rnd (nat \<lfloor>r\<rfloor>) (if troops dst \<ge> 2 then 2 else 1)"

definition battleLosses :: "(nat \<Rightarrow> rat) \<Rightarrow> rat \<Rightarrow> territory \<Rightarrow> nat \<times> nat" where
  "battleLosses rnd r dst = lossesSpec (attackerRoll rnd r) (defenderRoll rnd r dst)"

text \<open>A territory is owned by a player when its owner is the id of a player of the
  match; the neutral sentinel is no player.\<close>

definition ownedByPlayer :: "game \<Rightarrow> territory \<Rightarrow> bool" where
  "ownedByPlayer g t = list_ex (\<lambda>p. ownerId t = Some (pid p)) (players g)"

definition playerTroops :: "game \<Rightarrow> rat" where
  "playerTroops g = sum_list (map (\<lambda>t. if ownedByPlayer g t then troops t else 0) (gmap g))"

text \<open>The troops on all territories that have an owner, the neutral owner included.\<close>

definition ownedTroops :: "game \<Rightarrow> rat" where
  "ownedTroops g = sum_list (map (\<lambda>t. if ownerId t \<noteq> None then troops t else 0) (gmap g))"

text \<open>The invariant of the data model: every territory with an owner holds at least
  one troop.\<close>

definition troopsInvariant :: "game \<Rightarrow> bool" where
  "troopsInvariant g = list_all (\<lambda>t. ownerId t = None \<or> troops t \<ge> 1) (gmap g)"

text \<open>
  A step along the adjacency graph that stays on the player's territories: from a
  territory of the map to one of its neighbours that the player owns.  Two territories
  are connected for the player when such steps lead from one to the other.
\<close>

definition ownedStep :: "game \<Rightarrow> string \<Rightarrow> (string \<times> string) set" where
  "ownedStep g playerId =
     {(x, y). \<exists>t. getTerritory g x = Some t \<and> y \<in> set (neighbors t) \<and>
                  (\<exists>u \<in> set (gmap g). tid u = y \<and> ownerId u = Some playerId)}"

definition ownedPath :: "game \<Rightarrow> string \<Rightarrow> string \<Rightarrow> string \<Rightarrow> bool" where
  "ownedPath g playerId fromId toId = ((fromId, toId) \<in> (ownedStep g playerId)\<^sup>*)"

section \<open>A small match\<close>

text \<open>
  Five territories and two players: \<open>a\<close>, \<open>c\<close> and \<open>d\<close> belong to \<open>p1\<close>, \<open>b\<close> to \<open>p2\<close>,
  \<open>n\<close> to the neutral owner.  \<open>d\<close> borders \<open>a\<close>; the only way from \<open>a\<close> to \<open>c\<close> leads
  through \<open>b\<close>.
\<close>

definition exMap :: "territory list" where
  "exMap =
     [\<lparr>tid = ''a'', tname = ''Alpha'', continent = ''X'', neighbors = [''b'', ''n'', ''d''],
       ownerId = Some ''p1'', troops = 4\<rparr>,
      \<lparr>tid = ''b'', tname = ''Beta'', continent = ''X'', neighbors = [''a'', ''c''],
       ownerId = Some ''p2'', troops = 2\<rparr>,
      \<lparr>tid = ''c'', tname = ''Gamma'', continent = ''Y'', neighbors = [''b''],
       ownerId = Some ''p1'', troops = 3\<rparr>,
      \<lparr>tid = ''n'', tname = ''Nu'', continent = ''Y'', neighbors = [''a''],
       ownerId = Some ''neutral'', troops = 2\<rparr>,
      \<lparr>tid = ''d'', tname = ''Delta'', continent = ''Z'', neighbors = [''a''],
       ownerId = Some ''p1'', troops = 3\<rparr>]"

definition exPlayers :: "player list" where
  "exPlayers =
     [\<lparr>pid = ''p1'', displayName = ''General Alpha'', color = ''#00FFFF'', pool = 3,
       ready = False, hand = [], conqueredThisTurn = False\<rparr>,
      \<lparr>pid = ''p2'', displayName = ''Commander Bravo'', color = ''#FF4444'', pool = 3,
       ready = False, hand = [], conqueredThisTurn = False\<rparr>]"

definition exGame :: "phase \<Rightarrow> game" where
  "exGame ph =
     \<lparr>players = exPlayers, phase = ph, isFirstRound = True, currentPlayerIndex = 0,
      lastAttack = None, lastAttackId = 0, winnerId = None, battleHistory = [],
      globalTradeInCount = 0, pendingCardEarned = None,
      deck = \<lparr>nextUid = 1, baseCards = [], drawPile = [], discardPile = []\<rparr>,
      gmap = exMap\<rparr>"

text \<open>A random source whose first \<open>hi\<close> values give the die 6 and all later ones the
  die 1.\<close>

definition exDice :: "nat \<Rightarrow> nat \<Rightarrow> rat" where
  "exDice hi k = (if k < hi then 5 / 6 else 0)"

text \<open>A session in which \<open>p1\<close> attacks \<open>p2\<close> and nobody has rolled yet.\<close>

definition exBattle :: battle where
  "exBattle =
     \<lparr>abBattleId = ''battle_1'', abAttackerId = ''p1'', abDefenderId = ''p2'',
      abFromId = ''a'', abToId = ''b'', abFromName = ''Alpha'', abToName = ''Beta'',
      abMaxAttackerDice = 3, abMaxDefenderDice = 2,
      abAttackerRolled = False, abDefenderRolled = False,
      abAttackerDice = 0, abDefenderDice = 0, abDefenderAuto = False\<rparr>"

section \<open>Lemmas on the state accessors\<close>

lemma find_updFirst_same:
  "(\<And>x. P x \<Longrightarrow> P (f x)) \<Longrightarrow> find P (updFirst P f xs) = map_option f (find P xs)"
  by (induction xs) auto

lemma find_updFirst_other:
  "(\<And>x. Q (f x) = Q x) \<Longrightarrow> (\<And>x. P x \<Longrightarrow> \<not> Q x) \<Longrightarrow> find Q (updFirst P f xs) = find Q xs"
  by (induction xs) auto

lemma length_updFirst: "length (updFirst P f xs) = length xs"
  by (induction xs) auto

lemma gmap_deployAdvance: "gmap (deployAdvance conts g q) = gmap g"
  by (simp add: deployAdvance_def startNewRound_def Let_def)

lemma deployAmount_nonPositive: "nonPositiveCount count \<Longrightarrow> mathMax1 (orNum count 0) = Fin 1"
  by (cases count) (auto simp: orNum_def max_def)

section \<open>The trade-in economy\<close>

lemma sameType_iff:
  "(length xs = 0 \<or> length (remdups xs) = 1) \<longleftrightarrow> (\<exists>t. set xs \<subseteq> {t})"
proof -
  have "length (remdups xs) = card (set xs)" by (simp add: length_remdups_card_conv)
  moreover have "(set xs = {} \<or> card (set xs) = 1) \<longleftrightarrow> (\<exists>t. set xs \<subseteq> {t})"
    by (auto simp: card_1_singleton_iff subset_singleton_iff)
  ultimately show ?thesis by auto
qed

lemma set_nonWildTypes:
  "set (map ctype (filter (\<lambda>c. ctype c \<noteq> [] \<and> ctype c \<noteq> WILD_TYPE) cards)) = nonWildTypesOf cards"
  by (auto simp: nonWildTypesOf_def)

lemma missingCount_card:
  "length (filter (\<lambda>t. t \<notin> set (remdups xs)) CARD_TYPES) = card (set CARD_TYPES - set xs)"
proof -
  have d: "distinct CARD_TYPES" by (simp add: CARD_TYPES_def)
  have "length (filter (\<lambda>t. t \<notin> set xs) CARD_TYPES) = card (set (filter (\<lambda>t. t \<notin> set xs) CARD_TYPES))"
    by (rule distinct_card [symmetric]) (simp add: d)
  moreover have "set (filter (\<lambda>t. t \<notin> set xs) CARD_TYPES) = set CARD_TYPES - set xs" by auto
  ultimately show ?thesis by simp
qed

text \<open>
  C6.  For every list of cards, \<open>isValidTradeSet\<close> returns true exactly when the list has
  exactly three cards and either all non-wild cards share one type, or the number of the
  three troop types absent among the set's non-wild cards does not exceed the number of
  wild cards in the set.
\<close>

theorem isValidTradeSet_iff_spec: "isValidTradeSet cards = validTradeSet_spec cards"
proof (cases "length cards = 3")
  case False
  then show ?thesis by (simp add: isValidTradeSet_def validTradeSet_spec_def)
next
  case True
  let ?nw = "map ctype (filter (\<lambda>c. ctype c \<noteq> [] \<and> ctype c \<noteq> WILD_TYPE) cards)"
  have w: "length (filter (\<lambda>c. ctype c = WILD_TYPE) cards)
             = card {i. i < length cards \<and> ctype (cards ! i) = WILD_TYPE}"
    by (rule length_filter_conv_card)
  have s: "(length ?nw = 0 \<or> length (remdups ?nw) = 1) \<longleftrightarrow> (\<exists>t. nonWildTypesOf cards \<subseteq> {t})"
    using sameType_iff [of ?nw] by (simp only: set_nonWildTypes)
  have m: "length (filter (\<lambda>t. t \<notin> set (remdups ?nw)) CARD_TYPES)
             = card (set CARD_TYPES - nonWildTypesOf cards)"
    using missingCount_card [of ?nw] by (simp only: set_nonWildTypes)
  show ?thesis
    unfolding isValidTradeSet_def validTradeSet_spec_def Let_def
    using True w s m by auto
qed

text \<open>
  C7.  For every \<open>N \<ge> 1\<close> the reward of the \<open>N\<close>-th trade-in is \<open>2N + 2\<close> for \<open>N \<le> 5\<close> and
  \<open>15 + 5(N - 6)\<close> for \<open>N \<ge> 6\<close>; trades 1 to 7 yield 4, 6, 8, 10, 12, 15, 20; and the
  schedule is monotonically non-decreasing: a later trade \<open>M \<ge> N\<close> never yields less.
\<close>

theorem getTradeInReward_schedule:
  "1 \<le> N \<Longrightarrow> N \<le> M \<Longrightarrow>
   getTradeInReward (Fin (of_nat N))
     = Fin (if N \<le> 5 then 2 * of_nat N + 2 else 15 + 5 * (of_nat N - 6)) \<and>
   (\<exists>a b. getTradeInReward (Fin (of_nat N)) = Fin a \<and>
          getTradeInReward (Fin (of_nat M)) = Fin b \<and> a \<le> b) \<and>
   map (\<lambda>k. getTradeInReward (Fin (of_nat k))) [1, 2, 3, 4, 5, 6, 7]
     = map Fin [4, 6, 8, 10, 12, 15, 20]"
  by (auto simp: getTradeInReward_def orNum_def max_def)

theorem getTradeInReward_schedule_witness:
  "getTradeInReward (Fin 5) = Fin 12 \<and> getTradeInReward (Fin 6) = Fin 15 \<and>
   (\<exists>a b. getTradeInReward (Fin 5) = Fin a \<and> getTradeInReward (Fin 6) = Fin b \<and> a \<le> b)"
  using getTradeInReward_schedule [of 5 6] by simp

section \<open>deploy\<close>


lemma exGame_accessors:
  "getCurrentPlayer (exGame ph) = Some (exPlayers ! 0)"
  "getPlayer (exGame ph) ''p1'' = Some (exPlayers ! 0)"
  "getPlayer (exGame ph) ''p2'' = Some (exPlayers ! 1)"
  "getTerritory (exGame ph) ''a'' = Some (exMap ! 0)"
  "getTerritory (exGame ph) ''b'' = Some (exMap ! 1)"
  "getTerritory (exGame ph) ''c'' = Some (exMap ! 2)"
  "getTerritory (exGame ph) ''n'' = Some (exMap ! 3)"
  "winnerId (exGame ph) = None"
  "phase (exGame ph) = ph"
  by (simp_all add: getCurrentPlayer_def getPlayer_def getTerritory_def exGame_def
        exPlayers_def exMap_def)



text \<open>
  C10.  A deploy whose count is 0, negative, \<open>NaN\<close> or otherwise not numeric deploys
  exactly one troop: when the caller passes all other checks and has a pool of at least
  1, the call succeeds and does what a deploy of 1 does; the territory gains one troop
  and the pool loses one before the phase-specific completion runs.
\<close>

theorem deploy_coerces_to_one:
  assumes "nonPositiveCount count"
    and "\<not> truthyStr (winnerId g)"
    and "getPlayer g playerId = Some player"
    and "map_option pid (getCurrentPlayer g) = Some playerId"
    and "getTerritory g territoryId = Some territory"
    and "ownerId territory = Some playerId"
    and "1 \<le> pool player"
  shows "fst (deploy conts g playerId territoryId count) = True \<and>
         deploy conts g playerId territoryId count = deploy conts g playerId territoryId (Fin 1) \<and>
         snd (deploy conts g playerId territoryId count)
           = deployAdvance conts (deployApply g playerId territoryId 1) (pool player - 1) \<and>
         getTerritory (snd (deploy conts g playerId territoryId count)) territoryId
           = Some (territory\<lparr>troops := troops territory + 1\<rparr>) \<and>
         getPlayer (deployApply g playerId territoryId 1) playerId
           = Some (player\<lparr>pool := pool player - 1\<rparr>)"
proof -
  have amt: "mathMax1 (orNum count 0) = Fin 1"
    using assms(1) by (rule deployAmount_nonPositive)
  have amt1: "mathMax1 (orNum (Fin 1) 0) = Fin 1"
    by (simp add: orNum_def)
  obtain cur where cur: "getCurrentPlayer g = Some cur" "pid cur = playerId"
    using assms(4) by (cases "getCurrentPlayer g") auto
  have d: "deploy conts g playerId territoryId count
             = (True, deployAdvance conts (deployApply g playerId territoryId 1) (pool player - 1))"
    using assms cur by (simp add: deploy_def amt)
  have d1: "deploy conts g playerId territoryId (Fin 1)
             = (True, deployAdvance conts (deployApply g playerId territoryId 1) (pool player - 1))"
    using assms cur by (simp add: deploy_def amt1)
  have t: "getTerritory (deployApply g playerId territoryId 1) territoryId
             = Some (territory\<lparr>troops := troops territory + 1\<rparr>)"
    using assms(5)
    by (simp add: getTerritory_def deployApply_def updPlayer_def updTerritory_def find_updFirst_same)
  have p: "getPlayer (deployApply g playerId territoryId 1) playerId
             = Some (player\<lparr>pool := pool player - 1\<rparr>)"
    using assms(3)
    by (simp add: getPlayer_def deployApply_def updPlayer_def updTerritory_def find_updFirst_same)
  have t': "getTerritory (deployAdvance conts (deployApply g playerId territoryId 1) (pool player - 1)) territoryId
             = Some (territory\<lparr>troops := troops territory + 1\<rparr>)"
    using t by (simp add: getTerritory_def gmap_deployAdvance)
  show ?thesis using d d1 t' p by simp
qed

theorem deploy_coerces_to_one_witness:
  "nonPositiveCount NaN \<and>
   fst (deploy [] (exGame SETUP) ''p1'' ''a'' NaN) = True \<and>
   deploy [] (exGame SETUP) ''p1'' ''a'' NaN = deploy [] (exGame SETUP) ''p1'' ''a'' (Fin 1) \<and>
   getTerritory (snd (deploy [] (exGame SETUP) ''p1'' ''a'' NaN)) ''a''
     = Some ((exMap ! 0)\<lparr>troops := troops (exMap ! 0) + 1\<rparr>)"
proof -
  have "fst (deploy [] (exGame SETUP) ''p1'' ''a'' NaN) = True \<and>
        deploy [] (exGame SETUP) ''p1'' ''a'' NaN = deploy [] (exGame SETUP) ''p1'' ''a'' (Fin 1) \<and>
        snd (deploy [] (exGame SETUP) ''p1'' ''a'' NaN)
           = deployAdvance [] (deployApply (exGame SETUP) ''p1'' ''a'' 1) (pool (exPlayers ! 0) - 1) \<and>
        getTerritory (snd (deploy [] (exGame SETUP) ''p1'' ''a'' NaN)) ''a''
           = Some ((exMap ! 0)\<lparr>troops := troops (exMap ! 0) + 1\<rparr>) \<and>
        getPlayer (deployApply (exGame SETUP) ''p1'' ''a'' 1) ''p1''
           = Some ((exPlayers ! 0)\<lparr>pool := pool (exPlayers ! 0) - 1\<rparr>)"
    by (rule deploy_coerces_to_one)
       (simp_all add: exGame_accessors, simp_all add: exPlayers_def exMap_def)
  moreover have "nonPositiveCount NaN" by simp
  ultimately show ?thesis by blast
qed

section \<open>The battle session\<close>

lemma attackerRolled_again:
  "abAttackerRolled b \<Longrightarrow> b\<lparr>abAttackerDice := x, abAttackerRolled := True\<rparr> = b\<lparr>abAttackerDice := x\<rparr>"
  by (cases b) simp

lemma defenderRolled_again:
  "abDefenderRolled b \<Longrightarrow> b\<lparr>abDefenderDice := x, abDefenderRolled := True\<rparr> = b\<lparr>abDefenderDice := x\<rparr>"
  by (cases b) simp

text \<open>
  C5 (as amended).  A side that has already committed may commit again while the session
  is open (the other side has not rolled yet): the handler accepts the roll and replaces
  that side's committed dice count by the new value clamped into \<open>[1, max]\<close>; the rolled
  flag stays set, nothing else in the session changes and the session does not resolve.
  Only the commits of an auto-resolved defender are ignored.
\<close>

theorem commitRoll_second_commit_overwrites:
  "\<not> (truthyStr battleId \<and> abBattleId b \<noteq> [] \<and> battleId \<noteq> Some (abBattleId b)) \<Longrightarrow>
   (abAttackerRolled b \<and> \<not> abDefenderRolled b \<longrightarrow>
      commitRoll (Some b) (abAttackerId b) battleId (Fin d)
        = (Some (b\<lparr>abAttackerDice := max 1 (min (abMaxAttackerDice b) d)\<rparr>), None)) \<and>
   (abDefenderRolled b \<and> \<not> abAttackerRolled b \<and> \<not> abDefenderAuto b \<and>
    abDefenderId b \<noteq> abAttackerId b \<longrightarrow>
      commitRoll (Some b) (abDefenderId b) battleId (Fin d)
        = (Some (b\<lparr>abDefenderDice := max 1 (min (abMaxDefenderDice b) d)\<rparr>), None)) \<and>
   (abDefenderAuto b \<and> abDefenderId b \<noteq> abAttackerId b \<longrightarrow>
      commitRoll (Some b) (abDefenderId b) battleId (Fin d) = (Some b, None))"
proof -
  assume id: "\<not> (truthyStr battleId \<and> abBattleId b \<noteq> [] \<and> battleId \<noteq> Some (abBattleId b))"
  have c: "commitRoll (Some b) socketId battleId (Fin d) =
             (if socketId = abAttackerId b then
                maybeResolveActiveBattle
                  (b\<lparr>abAttackerDice := max 1 (min (abMaxAttackerDice b) d),
                     abAttackerRolled := True\<rparr>)
              else if socketId = abDefenderId b \<and> \<not> abDefenderAuto b then
                maybeResolveActiveBattle
                  (b\<lparr>abDefenderDice := max 1 (min (abMaxDefenderDice b) d),
                     abDefenderRolled := True\<rparr>)
              else (Some b, None))" for socketId
    unfolding commitRoll_def option.case if_not_P [OF id] jsnum.case ..
  have a: "abAttackerRolled b \<and> \<not> abDefenderRolled b \<longrightarrow>
      commitRoll (Some b) (abAttackerId b) battleId (Fin d)
        = (Some (b\<lparr>abAttackerDice := max 1 (min (abMaxAttackerDice b) d)\<rparr>), None)"
    by (simp add: c maybeResolveActiveBattle_def attackerRolled_again)
  have d: "abDefenderRolled b \<and> \<not> abAttackerRolled b \<and> \<not> abDefenderAuto b \<and>
    abDefenderId b \<noteq> abAttackerId b \<longrightarrow>
      commitRoll (Some b) (abDefenderId b) battleId (Fin d)
        = (Some (b\<lparr>abDefenderDice := max 1 (min (abMaxDefenderDice b) d)\<rparr>), None)"
    by (simp add: c maybeResolveActiveBattle_def defenderRolled_again)
  have e: "abDefenderAuto b \<and> abDefenderId b \<noteq> abAttackerId b \<longrightarrow>
      commitRoll (Some b) (abDefenderId b) battleId (Fin d) = (Some b, None)"
    by (simp add: c)
  from a d e show ?thesis by (intro conjI)
qed

theorem commitRoll_second_commit_overwrites_witness:
  "commitRoll (Some (exBattle\<lparr>abAttackerDice := 3, abAttackerRolled := True\<rparr>)) ''p1''
     (Some ''battle_1'') (Fin 1)
   = (Some (exBattle\<lparr>abAttackerDice := 1, abAttackerRolled := True\<rparr>), None)"
  using commitRoll_second_commit_overwrites
    [of "Some ''battle_1''" "exBattle\<lparr>abAttackerDice := 3, abAttackerRolled := True\<rparr>" 1]
  by (simp add: exBattle_def)

text \<open>
  The claim as stated fails: the attacker commits 3 dice, then commits 1 die before the
  defender has rolled, and the session's committed count becomes 1.
\<close>

theorem commitRoll_not_once_counterexample:
  "commitRoll (Some exBattle) ''p1'' (Some ''battle_1'') (Fin 3)
     = (Some (exBattle\<lparr>abAttackerDice := 3, abAttackerRolled := True\<rparr>), None) \<and>
   map_option abAttackerDice
     (fst (commitRoll (Some (exBattle\<lparr>abAttackerDice := 3, abAttackerRolled := True\<rparr>)) ''p1''
            (Some ''battle_1'') (Fin 1))) = Some 1 \<and>
   fst (commitRoll (Some (exBattle\<lparr>abAttackerDice := 3, abAttackerRolled := True\<rparr>)) ''p1''
            (Some ''battle_1'') (Fin 1))
     \<noteq> Some (exBattle\<lparr>abAttackerDice := 3, abAttackerRolled := True\<rparr>)"
  by (simp add: commitRoll_def maybeResolveActiveBattle_def exBattle_def)

section \<open>attack\<close>

lemma getTerritory_updTerritory_same:
  "(\<And>x. tid (h x) = tid x) \<Longrightarrow>
   getTerritory (updTerritory t h g) t = map_option h (getTerritory g t)"
  by (simp add: getTerritory_def updTerritory_def find_updFirst_same)

lemma getTerritory_updTerritory_other:
  "(\<And>x. tid (h x) = tid x) \<Longrightarrow> t \<noteq> t' \<Longrightarrow>
   getTerritory (updTerritory t h g) t' = getTerritory g t'"
  by (simp add: getTerritory_def updTerritory_def) (rule find_updFirst_other, auto)

lemma getTerritory_updPlayer: "getTerritory (updPlayer p h g) t = getTerritory g t"
  by (simp add: getTerritory_def updPlayer_def)



lemma getCurrentPlayer_in_players:
  "getCurrentPlayer g = Some c \<Longrightarrow> c \<in> set (players g)"
  by (auto simp: getCurrentPlayer_def split: if_splits)


text \<open>The checks of \<open>attack\<close> pass exactly when every precondition holds; the dice count
  only has to be a finite number between 1 and \<open>min 3 (from.troops - 1)\<close>.\<close>

lemma attackChecks_Some_iff:
  "attackChecks g playerId fromId toId requested = Some r \<longleftrightarrow>
     (\<not> truthyStr (winnerId g) \<and> phase g = TURN_ATTACK \<and>
      map_option pid (getCurrentPlayer g) = Some playerId \<and>
      (\<exists>from to. getTerritory g fromId = Some from \<and> getTerritory g toId = Some to \<and>
         ownerId from = Some playerId \<and>
         (ownerId to = Some NEUTRAL_ID \<or> (truthyStr (ownerId to) \<and> ownerId to \<noteq> Some playerId)) \<and>
         toId \<in> set (neighbors from) \<and>
         requested = Fin r \<and> 1 \<le> r \<and> r \<le> troops from - 1 \<and> r \<le> 3))"
proof (cases "getTerritory g fromId")
  case None
  then show ?thesis by (simp add: attackChecks_def)
next
  case (Some frm)
  note f = this
  show ?thesis
  proof (cases "getTerritory g toId")
    case None
    with f show ?thesis by (simp add: attackChecks_def)
  next
    case (Some dst)
    with f show ?thesis
      by (cases requested) (auto simp: attackChecks_def Let_def)
  qed
qed

text \<open>Every failed check leaves the match as it was.\<close>

lemma attack_failure_unchanged:
  "attackChecks g playerId fromId toId requested = None \<Longrightarrow>
   attack rnd g playerId fromId toId requested = (None, g)"
  by (simp add: attack_def)

lemma attack_rejects_unless:
  assumes "\<not> (\<not> truthyStr (winnerId g) \<and> phase g = TURN_ATTACK \<and>
      map_option pid (getCurrentPlayer g) = Some playerId \<and>
      (\<exists>from to r. getTerritory g fromId = Some from \<and> getTerritory g toId = Some to \<and>
         ownerId from = Some playerId \<and>
         (ownerId to = Some NEUTRAL_ID \<or> (truthyStr (ownerId to) \<and> ownerId to \<noteq> Some playerId)) \<and>
         toId \<in> set (neighbors from) \<and>
         requested = Fin r \<and> 1 \<le> r \<and> r \<le> troops from - 1 \<and> r \<le> 3))"
  shows "attack rnd g playerId fromId toId requested = (None, g)"
proof (cases "attackChecks g playerId fromId toId requested")
  case None
  then show ?thesis by (rule attack_failure_unchanged)
next
  case (Some r)
  from iffD1 [OF attackChecks_Some_iff Some] assms show ?thesis by blast
qed

lemma attack_success_iff:
  "fst (attack rnd g playerId fromId toId requested) \<noteq> None \<longleftrightarrow>
   attackChecks g playerId fromId toId requested \<noteq> None"
  by (auto simp: attack_def split: option.splits prod.splits)

text \<open>
  C2.  Whenever a precondition of \<open>attack\<close> fails, the call is to return a failure value
  and leave the match unchanged; a dice count that is not a finite integer in \<open>[1, 3]\<close>
  is among the failing preconditions.  The source tests \<open>Number.isFinite(requested)\<close>,
  \<open>requested < 1\<close>, \<open>requested > maxAttackable\<close> and \<open>requested > 3\<close>, never that the
  count is an integer: the attack of \<open>p1\<close> from \<open>a\<close> (4 troops) on \<open>b\<close> with the dice count
  2.5 passes every check, rolls two dice for the attacker, and changes the match (two
  troops lost on \<open>a\<close>, a new \<open>lastAttackId\<close>).
\<close>

theorem attack_accepts_fractional_dice_count:
  "map_option (\<lambda>res. (length (attackerDice res), attackTroopCount res, attackerLosses res))
     (fst (attack (\<lambda>k. 1 / 2) (exGame TURN_ATTACK) ''p1'' ''a'' ''b'' (Fin (5 / 2))))
     = Some (2, 5 / 2, 2) \<and>
   map_option troops
     (getTerritory (snd (attack (\<lambda>k. 1 / 2) (exGame TURN_ATTACK) ''p1'' ''a'' ''b'' (Fin (5 / 2)))) ''a'')
     = Some 2 \<and>
   lastAttackId (snd (attack (\<lambda>k. 1 / 2) (exGame TURN_ATTACK) ''p1'' ''a'' ''b'' (Fin (5 / 2)))) = 1 \<and>
   lastAttackId (exGame TURN_ATTACK) = 0"
  by code_simp

lemma length_rollDice: "length (rollDice rnd off n) = n"
  by (simp add: rollDice_def sortDesc_def)




lemma compareLoop_count:
  "compareLoop aDice dDice c i (aL, dL) =
     (aL + length (filter (\<lambda>j. \<not> aDice ! j > dDice ! j) [i ..< c]),
      dL + length (filter (\<lambda>j. aDice ! j > dDice ! j) [i ..< c]))"
proof (induction aDice dDice c i "(aL, dL)" arbitrary: aL dL rule: compareLoop.induct)
  case (1 aDice dDice comparisons i aL dL)
  show ?case
  proof (cases "i < comparisons")
    case False
    then show ?thesis by (simp add: compareLoop.simps [of aDice dDice comparisons i])
  next
    case True
    then have u: "[i ..< comparisons] = i # [i + 1 ..< comparisons]"
      by (simp add: upt_conv_Cons)
    show ?thesis
    proof (cases "aDice ! i > dDice ! i")
      case True
      with \<open>i < comparisons\<close> "1.hyps"(1) show ?thesis
        by (simp add: compareLoop.simps [of aDice dDice comparisons i] u)
    next
      case False
      with \<open>i < comparisons\<close> "1.hyps"(2) show ?thesis
        by (simp add: compareLoop.simps [of aDice dDice comparisons i] u)
    qed
  qed
qed

lemma zip_as_index_map:
  "zip xs ys = map (\<lambda>j. (xs ! j, ys ! j)) [0 ..< min (length xs) (length ys)]"
  by (rule nth_equalityI) simp_all

text \<open>The comparison loop computes the losses of the specification's pairing.\<close>

lemma compareLoop_lossesSpec:
  "compareLoop aDice dDice (min (length aDice) (length dDice)) 0 (0, 0) = lossesSpec aDice dDice"
  by (simp add: compareLoop_count lossesSpec_def zip_as_index_map [of aDice dDice]
        filter_map comp_def)

lemma lossesSpec_total:
  "fst (lossesSpec aDice dDice) + snd (lossesSpec aDice dDice)
     = min (length aDice) (length dDice)"
  using sum_length_filter_compl [of "\<lambda>(a, d). \<not> a > d" "zip aDice dDice"]
  by (simp add: lossesSpec_def case_prod_unfold)

lemma getPlayerTerritoryCount_eq:
  "getPlayerTerritoryCount g playerId = length (filter (\<lambda>t. ownerId t = Some playerId) (gmap g))"
proof -
  have "fold (\<lambda>t n. n + (if ownerId t = Some playerId then 1 else 0)) ts k
          = k + length (filter (\<lambda>t. ownerId t = Some playerId) ts)"
    for ts :: "territory list" and k :: nat
    by (induction ts arbitrary: k) simp_all
  then show ?thesis by (simp add: getPlayerTerritoryCount_def)
qed

lemma owns_everything_iff:
  "getPlayerTerritoryCount g playerId \<ge> length (gmap g)
     \<longleftrightarrow> list_all (\<lambda>t. ownerId t = Some playerId) (gmap g)"
proof -
  have "length (filter P ts) \<ge> length ts \<longleftrightarrow> list_all P ts" for P and ts :: "territory list"
  proof (induction ts)
    case Nil
    show ?case by simp
  next
    case (Cons x xs)
    have le: "length (filter P xs) \<le> length xs" by (rule length_filter_le)
    show ?case
    proof (cases "P x")
      case True
      with Cons show ?thesis by simp
    next
      case False
      from le have "\<not> Suc (length xs) \<le> length (filter P xs)" by linarith
      with False show ?thesis by simp
    qed
  qed
  then show ?thesis by (simp add: getPlayerTerritoryCount_eq)
qed

lemma checkForWinner_eq:
  "playerId \<noteq> [] \<Longrightarrow>
   checkForWinner g playerId =
     (if list_all (\<lambda>t. ownerId t = Some playerId) (gmap g)
      then (Some playerId, g\<lparr>winnerId := Some playerId\<rparr>) else (None, g))"
  by (simp add: checkForWinner_def owns_everything_iff)

lemma updTerritory_fields:
  "players (updTerritory t h g) = players g"
  "winnerId (updTerritory t h g) = winnerId g"
  "lastAttackId (updTerritory t h g) = lastAttackId g"
  "battleHistory (updTerritory t h g) = battleHistory g"
  "phase (updTerritory t h g) = phase g"
  "currentPlayerIndex (updTerritory t h g) = currentPlayerIndex g"
  "length (gmap (updTerritory t h g)) = length (gmap g)"
  by (simp_all add: updTerritory_def length_updFirst)

lemma updPlayer_fields:
  "gmap (updPlayer p h g) = gmap g"
  "winnerId (updPlayer p h g) = winnerId g"
  "lastAttackId (updPlayer p h g) = lastAttackId g"
  "battleHistory (updPlayer p h g) = battleHistory g"
  "phase (updPlayer p h g) = phase g"
  "currentPlayerIndex (updPlayer p h g) = currentPlayerIndex g"
  by (simp_all add: updPlayer_def)

lemma getTerritory_frame:
  "getTerritory (g\<lparr>winnerId := w\<rparr>) t = getTerritory g t"
  "getTerritory (g\<lparr>lastAttackId := i, lastAttack := l, battleHistory := h\<rparr>) t = getTerritory g t"
  by (simp_all add: getTerritory_def)

lemma getPlayer_frame:
  "getPlayer (g\<lparr>winnerId := w\<rparr>) p = getPlayer g p"
  "getPlayer (g\<lparr>lastAttackId := i, lastAttack := l, battleHistory := h\<rparr>) p = getPlayer g p"
  by (simp_all add: getPlayer_def)

text \<open>An attack never targets its own source unless the attacker carries the neutral
  sentinel as its id.\<close>

lemma attack_source_not_target:
  assumes "attackChecks g playerId fromId toId requested = Some r"
    and "playerId \<noteq> NEUTRAL_ID"
  shows "fromId \<noteq> toId"
proof
  assume "fromId = toId"
  with assms(1) obtain t where "getTerritory g fromId = Some t" "ownerId t = Some playerId"
    "ownerId t = Some NEUTRAL_ID \<or> (truthyStr (ownerId t) \<and> ownerId t \<noteq> Some playerId)"
    by (auto simp: attackChecks_Some_iff)
  with assms(2) show False by auto
qed

text \<open>The outcome of an attack whose checks pass, with the map and the players of the
  resulting state written as the sequence of mutations the source performs.\<close>

lemma attack_outcome:
  assumes chk: "attackChecks g playerId fromId toId requested = Some r"
    and frm: "getTerritory g fromId = Some src"
    and dst: "getTerritory g toId = Some dst"
    and pl: "playerId \<noteq> NEUTRAL_ID" "playerId \<noteq> []"
    and run: "attack rnd g playerId fromId toId requested = (result, g')"
    and aL: "aL = fst (battleLosses rnd r dst)"
    and dL: "dL = snd (battleLosses rnd r dst)"
    and m: "m = max 1 (r - of_nat aL)"
    and g2: "g2 = updTerritory toId (\<lambda>t. t\<lparr>troops := troops t - of_nat dL\<rparr>)
                   (updTerritory fromId (\<lambda>t. t\<lparr>troops := troops t - of_nat aL\<rparr>) g)"
    and g6: "g6 = updTerritory toId (\<lambda>t. t\<lparr>troops := m\<rparr>)
                   (updTerritory fromId (\<lambda>t. t\<lparr>troops := troops t - m\<rparr>)
                     (updPlayer playerId (\<lambda>p. p\<lparr>conqueredThisTurn := True\<rparr>)
                       (updTerritory toId (\<lambda>t. t\<lparr>ownerId := Some playerId\<rparr>) g2)))"
  shows "\<exists>res. result = Some res \<and>
     attackerDice res = attackerRoll rnd r \<and> defenderDice res = defenderRoll rnd r dst \<and>
     attackerLosses res = aL \<and> defenderLosses res = dL \<and> attackTroopCount res = r \<and>
     (if troops dst - of_nat dL \<le> 0
      then conquered res \<and> gmap g' = gmap g6 \<and> players g' = players g6 \<and>
           resultWinnerId res
             = (if list_all (\<lambda>t. ownerId t = Some playerId) (gmap g6) then Some playerId else None) \<and>
           winnerId g'
             = (if list_all (\<lambda>t. ownerId t = Some playerId) (gmap g6) then Some playerId
                else winnerId g)
      else \<not> conquered res \<and> gmap g' = gmap g2 \<and> players g' = players g \<and>
           winnerId g' = winnerId g \<and> resultWinnerId res = None)"
proof -
  let ?aD = "attackerRoll rnd r" and ?dD = "defenderRoll rnd r dst"
  have ne: "fromId \<noteq> toId" using chk pl(1) by (rule attack_source_not_target)
  have cl: "compareLoop ?aD ?dD (min (length ?aD) (length ?dD)) 0 (0, 0) = (aL, dL)"
    by (simp add: compareLoop_lossesSpec aL dL battleLosses_def)
  have t2: "getTerritory g2 toId = Some (dst\<lparr>troops := troops dst - of_nat dL\<rparr>)"
    using dst ne
    by (simp add: g2 getTerritory_updTerritory_same getTerritory_updTerritory_other)
  have res: "result = Some (fst (attackResolve rnd g playerId fromId toId r))"
    "g' = snd (attackResolve rnd g playerId fromId toId r)"
    using chk run by (simp_all add: attack_def case_prod_unfold Let_def)
  have mm: "max 1 (max 0 (r - of_nat aL)) = m" by (simp add: m)
  have cw: "checkForWinner g6 playerId =
              (if list_all (\<lambda>t. ownerId t = Some playerId) (gmap g6)
               then (Some playerId, g6\<lparr>winnerId := Some playerId\<rparr>) else (None, g6))"
    using pl(2) by (rule checkForWinner_eq)
  have w6: "winnerId g6 = winnerId g" "winnerId g2 = winnerId g" "players g2 = players g"
    by (simp_all add: g6 g2 updTerritory_fields updPlayer_fields)
  show ?thesis
  proof (cases "troops dst - of_nat dL \<le> 0")
    case False
    with dst cl t2 w6 show ?thesis
      by (simp add: res attackResolve_def Let_def attackerRoll_def [symmetric]
            defenderRoll_def [symmetric] g2 [symmetric])
  next
    case True
    with dst cl t2 cw w6 show ?thesis
      by (simp add: res attackResolve_def Let_def attackerRoll_def [symmetric]
            defenderRoll_def [symmetric] g2 [symmetric] mm g6 [symmetric] case_prod_unfold)
  qed
qed

lemma getTerritory_gmap_cong: "gmap g' = gmap g \<Longrightarrow> getTerritory g' t = getTerritory g t"
  by (simp add: getTerritory_def)




lemma sum_updFirst:
  fixes W :: "'a \<Rightarrow> rat"
  shows "find P xs = Some x \<Longrightarrow>
         sum_list (map W (updFirst P f xs)) = sum_list (map W xs) - W x + W (f x)"
  by (induction xs) (auto split: if_splits)

lemma sum_updTerritory:
  fixes W :: "territory \<Rightarrow> rat"
  shows "getTerritory g t = Some x \<Longrightarrow>
         sum_list (map W (gmap (updTerritory t h g))) = sum_list (map W (gmap g)) - W x + W (h x)"
  by (simp add: getTerritory_def updTerritory_def sum_updFirst)

lemma map_pid_updFirst:
  "(\<And>x. pid (f x) = pid x) \<Longrightarrow> map pid (updFirst P f xs) = map pid xs"
  by (induction xs) auto

lemma ownedByPlayer_cong:
  "map pid (players g') = map pid (players g) \<Longrightarrow> ownerId t' = ownerId t \<Longrightarrow>
   ownedByPlayer g' t' = ownedByPlayer g t"
proof -
  assume a: "map pid (players g') = map pid (players g)" and b: "ownerId t' = ownerId t"
  have "ownedByPlayer h u = (ownerId u \<in> Some ` set (map pid (players h)))" for h u
    by (auto simp: ownedByPlayer_def list_ex_iff)
  moreover from a have "set (map pid (players g')) = set (map pid (players g))" by simp
  ultimately show ?thesis using b by simp
qed

lemma ownedByPlayer_current:
  "map_option pid (getCurrentPlayer g) = Some p \<Longrightarrow> ownerId t = Some p \<Longrightarrow> ownedByPlayer g t"
  using getCurrentPlayer_in_players [of g]
  by (auto simp: ownedByPlayer_def list_ex_iff)

lemma territory_owner_after_troops:
  "(t\<lparr>troops := a\<rparr>)\<lparr>ownerId := b\<rparr> = t\<lparr>ownerId := b, troops := a\<rparr>"
  by (cases t) simp

text \<open>What an attack does to a weighted sum over the map: only the source and the target
  territory change.\<close>

lemma attack_weighted_sum:
  fixes W :: "territory \<Rightarrow> rat"
  assumes frm: "getTerritory g fromId = Some src"
    and dst: "getTerritory g toId = Some dst"
    and ne: "fromId \<noteq> toId"
    and g2: "g2 = updTerritory toId (\<lambda>t. t\<lparr>troops := troops t - dl\<rparr>)
                   (updTerritory fromId (\<lambda>t. t\<lparr>troops := troops t - al\<rparr>) g)"
    and g6: "g6 = updTerritory toId (\<lambda>t. t\<lparr>troops := m\<rparr>)
                   (updTerritory fromId (\<lambda>t. t\<lparr>troops := troops t - m\<rparr>)
                     (updPlayer playerId (\<lambda>p. p\<lparr>conqueredThisTurn := True\<rparr>)
                       (updTerritory toId (\<lambda>t. t\<lparr>ownerId := Some playerId\<rparr>) g2)))"
  shows "sum_list (map W (gmap g2))
           = sum_list (map W (gmap g)) - W src + W (src\<lparr>troops := troops src - al\<rparr>)
               - W dst + W (dst\<lparr>troops := troops dst - dl\<rparr>)"
    and "sum_list (map W (gmap g6))
           = sum_list (map W (gmap g)) - W src + W (src\<lparr>troops := troops src - al - m\<rparr>)
               - W dst + W (dst\<lparr>ownerId := Some playerId, troops := m\<rparr>)"
proof -
  let ?g1 = "updTerritory fromId (\<lambda>t. t\<lparr>troops := troops t - al\<rparr>) g"
  let ?g3 = "updTerritory toId (\<lambda>t. t\<lparr>ownerId := Some playerId\<rparr>) g2"
  let ?g4 = "updPlayer playerId (\<lambda>p. p\<lparr>conqueredThisTurn := True\<rparr>) ?g3"
  let ?g5 = "updTerritory fromId (\<lambda>t. t\<lparr>troops := troops t - m\<rparr>) ?g4"
  have t1: "getTerritory ?g1 toId = Some dst"
    using dst ne by (simp add: getTerritory_updTerritory_other)
  have s1: "sum_list (map W (gmap ?g1))
              = sum_list (map W (gmap g)) - W src + W (src\<lparr>troops := troops src - al\<rparr>)"
    using frm by (simp add: sum_updTerritory)
  have s2: "sum_list (map W (gmap g2))
              = sum_list (map W (gmap ?g1)) - W dst + W (dst\<lparr>troops := troops dst - dl\<rparr>)"
    unfolding g2 using t1 by (simp add: sum_updTerritory)
  from s1 s2 show "sum_list (map W (gmap g2))
           = sum_list (map W (gmap g)) - W src + W (src\<lparr>troops := troops src - al\<rparr>)
               - W dst + W (dst\<lparr>troops := troops dst - dl\<rparr>)"
    by simp
  have t2: "getTerritory g2 toId = Some (dst\<lparr>troops := troops dst - dl\<rparr>)"
    unfolding g2 using t1 by (simp add: getTerritory_updTerritory_same)
  have f2: "getTerritory g2 fromId = Some (src\<lparr>troops := troops src - al\<rparr>)"
    unfolding g2 using frm ne
    by (simp add: getTerritory_updTerritory_same getTerritory_updTerritory_other)
  have s3: "sum_list (map W (gmap ?g3))
              = sum_list (map W (gmap g2)) - W (dst\<lparr>troops := troops dst - dl\<rparr>)
                  + W (dst\<lparr>ownerId := Some playerId, troops := troops dst - dl\<rparr>)"
    using t2 by (simp add: sum_updTerritory territory_owner_after_troops)
  have f4: "getTerritory ?g4 fromId = Some (src\<lparr>troops := troops src - al\<rparr>)"
    using f2 ne by (simp add: getTerritory_updPlayer getTerritory_updTerritory_other)
  have t4: "getTerritory ?g4 toId
              = Some (dst\<lparr>ownerId := Some playerId, troops := troops dst - dl\<rparr>)"
    using t2
    by (simp add: getTerritory_updPlayer getTerritory_updTerritory_same
          territory_owner_after_troops)
  have s5: "sum_list (map W (gmap ?g5))
              = sum_list (map W (gmap ?g3)) - W (src\<lparr>troops := troops src - al\<rparr>)
                  + W (src\<lparr>troops := troops src - al - m\<rparr>)"
    using f4 sum_updTerritory [OF f4, of W "\<lambda>t. t\<lparr>troops := troops t - m\<rparr>"]
    by (simp add: updPlayer_fields)
  have t5: "getTerritory ?g5 toId
              = Some (dst\<lparr>ownerId := Some playerId, troops := troops dst - dl\<rparr>)"
    using t4 ne by (simp add: getTerritory_updTerritory_other)
  have s6: "sum_list (map W (gmap g6))
              = sum_list (map W (gmap ?g5))
                  - W (dst\<lparr>ownerId := Some playerId, troops := troops dst - dl\<rparr>)
                  + W (dst\<lparr>ownerId := Some playerId, troops := m\<rparr>)"
    unfolding g6 using sum_updTerritory [OF t5, of W "\<lambda>t. t\<lparr>troops := m\<rparr>"] by simp
  from s1 s2 s3 s5 s6 show "sum_list (map W (gmap g6))
           = sum_list (map W (gmap g)) - W src + W (src\<lparr>troops := troops src - al - m\<rparr>)
               - W dst + W (dst\<lparr>ownerId := Some playerId, troops := m\<rparr>)"
    by simp
qed

text \<open>A conquest costs the attacker nothing: the defender must lose every comparison.\<close>

lemma battleLosses_bounds:
  assumes "1 \<le> r"
  shows "fst (battleLosses rnd r dst) + snd (battleLosses rnd r dst) \<ge> 1"
    and "1 \<le> troops dst \<Longrightarrow> troops dst - of_nat (snd (battleLosses rnd r dst)) \<le> 0
         \<Longrightarrow> fst (battleLosses rnd r dst) = 0"
proof -
  let ?aL = "fst (battleLosses rnd r dst)" and ?dL = "snd (battleLosses rnd r dst)"
  let ?M = "if troops dst \<ge> 2 then 2 else 1 :: nat"
  have "0 < \<lfloor>r\<rfloor>" using assms by linarith
  then have "0 < nat \<lfloor>r\<rfloor>" by simp
  then have N: "1 \<le> nat \<lfloor>r\<rfloor>" by linarith
  have tot: "?aL + ?dL = min (nat \<lfloor>r\<rfloor>) ?M"
    using lossesSpec_total [of "attackerRoll rnd r" "defenderRoll rnd r dst"]
    by (simp add: battleLosses_def attackerRoll_def defenderRoll_def length_rollDice)
  from tot N show "?aL + ?dL \<ge> 1" by (simp split: if_splits)
  assume inv: "1 \<le> troops dst" and conq: "troops dst - of_nat ?dL \<le> 0"
  show "?aL = 0"
  proof (cases "troops dst \<ge> 2")
    case True
    with conq have "(2 :: rat) \<le> of_nat ?dL" by simp
    then have "2 \<le> ?dL" by (metis of_nat_le_iff of_nat_numeral)
    moreover from tot True have "?aL + ?dL \<le> 2" by simp
    ultimately show ?thesis by simp
  next
    case False
    from conq inv have "(1 :: rat) \<le> of_nat ?dL" by simp
    then have "1 \<le> ?dL" by (metis of_nat_le_iff of_nat_1)
    moreover from tot False have "?aL + ?dL \<le> 1" by simp
    ultimately show ?thesis by simp
  qed
qed

lemma truthyStr_not_None: "truthyStr x \<Longrightarrow> x \<noteq> None"
  by (cases x) simp_all

text \<open>
  C4 (as amended).  Across a single attack resolution the sum of troops over all
  territories owned by players is non-increasing; it strictly decreases whenever the
  attacker loses a troop or the attacked territory belongs to a player, and it stays the
  same when only a neutral defender loses troops.  The sum over all territories that
  have an owner, the neutral owner included, strictly decreases in every resolved attack
  (some loss always occurs).  A freshly conquered territory holds exactly the surviving
  attacking troops, and a conquest costs the attacker nothing.
\<close>

theorem attack_troop_sums:
  assumes chk: "attackChecks g playerId fromId toId requested = Some r"
    and frm: "getTerritory g fromId = Some src"
    and dst: "getTerritory g toId = Some dst"
    and pl: "playerId \<noteq> NEUTRAL_ID" "playerId \<noteq> []"
    and inv: "1 \<le> troops dst"
    and run: "attack rnd g playerId fromId toId requested = (Some res, g')"
  shows "playerTroops g' \<le> playerTroops g \<and>
         (0 < attackerLosses res \<or> ownedByPlayer g dst \<longrightarrow> playerTroops g' < playerTroops g) \<and>
         (attackerLosses res = 0 \<and> \<not> ownedByPlayer g dst \<longrightarrow> playerTroops g' = playerTroops g) \<and>
         ownedTroops g' < ownedTroops g \<and>
         0 < attackerLosses res + defenderLosses res \<and>
         (conquered res \<longrightarrow>
            attackerLosses res = 0 \<and>
            getTerritory g' toId
              = Some (dst\<lparr>ownerId := Some playerId,
                          troops := max 0 (r - of_nat (attackerLosses res))\<rparr>))"
proof -
  define aL where "aL = fst (battleLosses rnd r dst)"
  define dL where "dL = snd (battleLosses rnd r dst)"
  define m where "m = max 1 (r - of_nat aL)"
  define g2 where "g2 = updTerritory toId (\<lambda>t. t\<lparr>troops := troops t - of_nat dL\<rparr>)
                   (updTerritory fromId (\<lambda>t. t\<lparr>troops := troops t - of_nat aL\<rparr>) g)"
  define g6 where "g6 = updTerritory toId (\<lambda>t. t\<lparr>troops := m\<rparr>)
                   (updTerritory fromId (\<lambda>t. t\<lparr>troops := troops t - m\<rparr>)
                     (updPlayer playerId (\<lambda>p. p\<lparr>conqueredThisTurn := True\<rparr>)
                       (updTerritory toId (\<lambda>t. t\<lparr>ownerId := Some playerId\<rparr>) g2)))"
  define Wp where "Wp = (\<lambda>t. if ownedByPlayer g t then troops t else 0)"
  define Wo :: "territory \<Rightarrow> rat"
    where "Wo = (\<lambda>t. if ownerId t \<noteq> None then troops t else 0)"
  from attack_outcome [OF chk frm dst pl run aL_def dL_def m_def g2_def g6_def]
  obtain res' where all: "Some res = Some res' \<and>
     attackerDice res' = attackerRoll rnd r \<and> defenderDice res' = defenderRoll rnd r dst \<and>
     attackerLosses res' = aL \<and> defenderLosses res' = dL \<and> attackTroopCount res' = r \<and>
     (if troops dst - of_nat dL \<le> 0
      then conquered res' \<and> gmap g' = gmap g6 \<and> players g' = players g6 \<and>
           resultWinnerId res'
             = (if list_all (\<lambda>t. ownerId t = Some playerId) (gmap g6) then Some playerId else None) \<and>
           winnerId g'
             = (if list_all (\<lambda>t. ownerId t = Some playerId) (gmap g6) then Some playerId
                else winnerId g)
      else \<not> conquered res' \<and> gmap g' = gmap g2 \<and> players g' = players g \<and>
           winnerId g' = winnerId g \<and> resultWinnerId res' = None)" ..
  then have same: "res' = res" by simp
  from all have losses: "attackerLosses res = aL" "defenderLosses res = dL"
    and branch: "if troops dst - of_nat dL \<le> 0
      then conquered res \<and> gmap g' = gmap g6 \<and> players g' = players g6
      else \<not> conquered res \<and> gmap g' = gmap g2 \<and> players g' = players g"
    unfolding same by (simp_all split: if_splits)
  have ne: "fromId \<noteq> toId" using chk pl(1) by (rule attack_source_not_target)
  from chk frm dst have cur: "map_option pid (getCurrentPlayer g) = Some playerId"
    and own: "ownerId src = Some playerId" "ownerId dst \<noteq> None" and r1: "1 \<le> r"
    by (auto simp: attackChecks_Some_iff dest: truthyStr_not_None)
  have some: "1 \<le> aL + dL"
    unfolding aL_def dL_def using r1 by (rule battleLosses_bounds(1))
  have free: "troops dst - of_nat dL \<le> 0 \<Longrightarrow> aL = 0"
    unfolding aL_def dL_def using r1 inv by (rule battleLosses_bounds(2))
  have pids: "map pid (players g') = map pid (players g)"
  proof (cases "troops dst - of_nat dL \<le> 0")
    case True
    with branch have "players g' = players g6" by simp
    also have "players g6 = updFirst (\<lambda>p. pid p = playerId)
                              (\<lambda>p. p\<lparr>conqueredThisTurn := True\<rparr>) (players g)"
      by (simp add: g6_def g2_def updTerritory_fields) (simp add: updPlayer_def updTerritory_fields)
    finally show ?thesis by (simp add: map_pid_updFirst)
  next
    case False
    with branch show ?thesis by simp
  qed
  have pt': "playerTroops g' = sum_list (map Wp (gmap g'))"
    using ownedByPlayer_cong [OF pids refl]
    by (simp add: playerTroops_def Wp_def)
  have pt: "playerTroops g = sum_list (map Wp (gmap g))"
    by (simp add: playerTroops_def Wp_def)
  have ot': "ownedTroops g' = sum_list (map Wo (gmap g'))"
    and ot: "ownedTroops g = sum_list (map Wo (gmap g))"
    by (simp_all add: ownedTroops_def Wo_def)
  have osrc: "ownedByPlayer g src" using cur own(1) by (rule ownedByPlayer_current)
  have onew: "ownedByPlayer g (dst\<lparr>ownerId := Some playerId, troops := x\<rparr>)" for x
    using cur by (rule ownedByPlayer_current) simp
  have Wp_src: "Wp src = troops src" "\<And>x. Wp (src\<lparr>troops := x\<rparr>) = x"
    using osrc ownedByPlayer_cong [of g g "src\<lparr>troops := x\<rparr>" src for x]
    by (simp_all add: Wp_def)
  have Wp_dst: "\<And>x. Wp (dst\<lparr>troops := x\<rparr>) = (if ownedByPlayer g dst then x else 0)"
    "Wp dst = (if ownedByPlayer g dst then troops dst else 0)"
    "\<And>x. Wp (dst\<lparr>ownerId := Some playerId, troops := x\<rparr>) = x"
    using onew ownedByPlayer_cong [of g g "dst\<lparr>troops := x\<rparr>" dst for x]
    by (simp_all add: Wp_def)
  have Wo_src: "Wo src = troops src" "\<And>x. Wo (src\<lparr>troops := x\<rparr>) = x"
    using own(1) by (simp_all add: Wo_def)
  have Wo_dst: "Wo dst = troops dst" "\<And>x. Wo (dst\<lparr>troops := x\<rparr>) = x"
    "\<And>x. Wo (dst\<lparr>ownerId := Some playerId, troops := x\<rparr>) = x"
    using own(2) by (simp_all add: Wo_def)
  note sums = attack_weighted_sum [OF frm dst ne g2_def g6_def]
  show ?thesis
  proof (cases "troops dst - of_nat dL \<le> 0")
    case False
    with branch have b: "\<not> conquered res" "gmap g' = gmap g2" by simp_all
    have p: "playerTroops g' = playerTroops g - of_nat aL
                                 - (if ownedByPlayer g dst then of_nat dL else 0)"
      by (simp add: pt' pt b(2) sums(1) Wp_src Wp_dst)
    have o: "ownedTroops g' = ownedTroops g - of_nat aL - of_nat dL"
      by (simp add: ot' ot b(2) sums(1) Wo_src Wo_dst)
    have pos: "0 < aL \<or> 0 < dL" using some by linarith
    have c1: "playerTroops g' \<le> playerTroops g" by (simp add: p)
    have c2: "0 < aL \<or> ownedByPlayer g dst \<longrightarrow> playerTroops g' < playerTroops g"
      using pos by (auto simp: p)
    have c3: "aL = 0 \<and> \<not> ownedByPlayer g dst \<longrightarrow> playerTroops g' = playerTroops g"
      by (simp add: p)
    have c4: "ownedTroops g' < ownedTroops g"
      using pos by (auto simp: o)
    have c5: "0 < aL + dL" using some by linarith
    from c1 c2 c3 c4 c5 b(1) show ?thesis by (simp only: losses simp_thms)
  next
    case True
    with branch have b: "conquered res" "gmap g' = gmap g6" by simp_all
    have a0: "aL = 0" using True by (rule free)
    have mr: "m = r" "max 0 (r - of_nat aL) = r" using r1 by (simp_all add: m_def a0)
    have p: "playerTroops g' = playerTroops g - (if ownedByPlayer g dst then troops dst else 0)"
      by (simp add: pt' pt b(2) sums(2) Wp_src Wp_dst a0)
    have o: "ownedTroops g' = ownedTroops g - troops dst"
      by (simp add: ot' ot b(2) sums(2) Wo_src Wo_dst a0)
    have t6: "getTerritory g6 toId = Some (dst\<lparr>ownerId := Some playerId, troops := m\<rparr>)"
      using dst ne
      by (simp add: g6_def g2_def getTerritory_updTerritory_same
            getTerritory_updTerritory_other getTerritory_updPlayer)
    have c1: "playerTroops g' \<le> playerTroops g" using inv by (simp add: p)
    have c2: "0 < aL \<or> ownedByPlayer g dst \<longrightarrow> playerTroops g' < playerTroops g"
      using inv by (simp add: p a0)
    have c3: "aL = 0 \<and> \<not> ownedByPlayer g dst \<longrightarrow> playerTroops g' = playerTroops g"
      by (simp add: p)
    have c4: "ownedTroops g' < ownedTroops g" using inv by (simp add: o)
    have c6: "getTerritory g' toId
                = Some (dst\<lparr>ownerId := Some playerId, troops := max 0 (r - of_nat aL)\<rparr>)"
      using t6 by (simp add: getTerritory_gmap_cong [OF b(2)] mr)
    have c5: "0 < aL + dL" using some by linarith
    from c1 c2 c3 c4 c5 c6 a0 show ?thesis by (simp only: losses simp_thms)
  qed
qed

theorem attack_troop_sums_witness:
  "playerTroops (snd (attack (exDice 2) (exGame TURN_ATTACK) ''p1'' ''a'' ''b'' (Fin 3)))
     < playerTroops (exGame TURN_ATTACK) \<and>
   ownedTroops (snd (attack (exDice 2) (exGame TURN_ATTACK) ''p1'' ''a'' ''b'' (Fin 3)))
     < ownedTroops (exGame TURN_ATTACK)"
proof -
  have chk: "attackChecks (exGame TURN_ATTACK) ''p1'' ''a'' ''b'' (Fin 3) = Some 3"
    by (simp add: attackChecks_def exGame_accessors Let_def)
       (simp add: exMap_def exPlayers_def NEUTRAL_ID_def)
  have frm: "getTerritory (exGame TURN_ATTACK) ''a'' = Some (exMap ! 0)"
    and dst: "getTerritory (exGame TURN_ATTACK) ''b'' = Some (exMap ! 1)"
    by (simp_all add: exGame_accessors)
  have pl: "''p1'' \<noteq> NEUTRAL_ID" "''p1'' \<noteq> []"
    by (simp_all add: NEUTRAL_ID_def)
  have inv: "1 \<le> troops (exMap ! 1)" by (simp add: exMap_def)
  have own: "ownedByPlayer (exGame TURN_ATTACK) (exMap ! 1)"
    by (simp add: ownedByPlayer_def exGame_def exPlayers_def exMap_def)
  obtain res where run: "attack (exDice 2) (exGame TURN_ATTACK) ''p1'' ''a'' ''b'' (Fin 3)
               = (Some res, snd (attack (exDice 2) (exGame TURN_ATTACK) ''p1'' ''a'' ''b'' (Fin 3)))"
    using chk by (simp add: attack_def case_prod_unfold Let_def)
  from attack_troop_sums [OF chk frm dst pl inv run] own show ?thesis by simp
qed

text \<open>
  The claim as stated fails: \<open>p1\<close> attacks the neutral territory \<open>n\<close> with one die and wins
  the comparison; the defender loses a troop, no player does, and the sum of troops over
  the territories owned by players is what it was.
\<close>

theorem attack_neutral_loss_counterexample:
  "map_option (\<lambda>res. (attackerLosses res, defenderLosses res, conquered res))
     (fst (attack (exDice 1) (exGame TURN_ATTACK) ''p1'' ''a'' ''n'' (Fin 1)))
     = Some (0, 1, False) \<and>
   playerTroops (snd (attack (exDice 1) (exGame TURN_ATTACK) ''p1'' ''a'' ''n'' (Fin 1)))
     = playerTroops (exGame TURN_ATTACK)"
  by code_simp

section \<open>fortify\<close>

text \<open>The breadth-first search only ever queues territories that the player owns and
  that are reachable from the start through the player's territories.\<close>

lemma fold_visitStep_queue:
  "set (snd (fold (visitStep ownedIds) ns vq)) \<subseteq> set (snd vq) \<union> (set ns \<inter> set ownedIds)"
proof (induction ns arbitrary: vq)
  case Nil
  show ?case by simp
next
  case (Cons n ns)
  have "set (snd (visitStep ownedIds n vq)) \<subseteq> set (snd vq) \<union> ({n} \<inter> set ownedIds)"
    by (auto simp: visitStep_def)
  with Cons [of "visitStep ownedIds n vq"] show ?case by auto
qed

lemma bfsLoop_sound:
  assumes "bfsLoop g ownedIds toId queue visited"
    and "ownedIds = map tid (filter (\<lambda>t. ownerId t = Some playerId) (gmap g))"
    and "\<forall>x \<in> set queue. (s, x) \<in> (ownedStep g playerId)\<^sup>*"
  shows "(s, toId) \<in> (ownedStep g playerId)\<^sup>*"
  using assms
proof (induction g ownedIds toId queue visited rule: bfsLoop.induct)
  case (1 g ownedIds toId visited)
  then show ?case by simp
next
  case (2 g ownedIds toId currentId queue visited)
  show ?case
  proof (cases "currentId = toId")
    case True
    with "2.prems"(3) show ?thesis by simp
  next
    case False
    note ne = this
    show ?thesis
    proof (cases "getTerritory g currentId")
      case None
      with ne "2.prems" have "bfsLoop g ownedIds toId queue visited" by simp
      moreover from "2.prems"(3) have "\<forall>x \<in> set queue. (s, x) \<in> (ownedStep g playerId)\<^sup>*"
        by simp
      ultimately show ?thesis using "2.IH"(1) [OF ne None] "2.prems"(2) by blast
    next
      case (Some current)
      let ?q = "snd (fold (visitStep ownedIds) (neighbors current) (visited, queue))"
      let ?v = "fst (fold (visitStep ownedIds) (neighbors current) (visited, queue))"
      from ne Some "2.prems"(1) have run: "bfsLoop g ownedIds toId ?q ?v" by simp
      have cur: "(s, currentId) \<in> (ownedStep g playerId)\<^sup>*" using "2.prems"(3) by simp
      have "\<forall>x \<in> set ?q. (s, x) \<in> (ownedStep g playerId)\<^sup>*"
      proof
        fix x assume "x \<in> set ?q"
        with fold_visitStep_queue [of ownedIds "neighbors current" "(visited, queue)"]
        have "x \<in> set queue \<or> (x \<in> set (neighbors current) \<and> x \<in> set ownedIds)" by auto
        then show "(s, x) \<in> (ownedStep g playerId)\<^sup>*"
        proof
          assume "x \<in> set queue"
          with "2.prems"(3) show ?thesis by simp
        next
          assume x: "x \<in> set (neighbors current) \<and> x \<in> set ownedIds"
          with "2.prems"(2) have "\<exists>u \<in> set (gmap g). tid u = x \<and> ownerId u = Some playerId"
            by auto
          with x Some have "(currentId, x) \<in> ownedStep g playerId"
            by (auto simp: ownedStep_def)
          with cur show ?thesis by (rule rtrancl_into_rtrancl)
        qed
      qed
      with run "2.IH"(2) [OF ne Some] "2.prems"(2) show ?thesis by blast
    qed
  qed
qed

lemma isConnected_ownedPath:
  "isConnected g playerId fromId toId \<Longrightarrow> ownedPath g playerId fromId toId"
  unfolding ownedPath_def
  by (rule bfsLoop_sound [where queue = "[fromId]" and visited = "[fromId]"
        and ownedIds = "map tid (filter (\<lambda>t. ownerId t = Some playerId) (gmap g))"])
     (auto simp: isConnected_def Let_def split: if_splits)

lemma fortifyAmount_cases:
  "mathMax1 (orNum count 1) = Fin m \<Longrightarrow> 1 \<le> m"
  by (cases count) (auto simp: orNum_def split: if_splits)

text \<open>
  What a successful fortify guarantees: the phase, the turn, two distinct territories of
  the player joined through the player's own territories, at least one troop moved, and
  the turn ended by \<open>nextTurn\<close>.  The source keeps strictly more than zero troops; it
  keeps at least one when the troop count and the amount moved are integers.
\<close>

lemma fortify_success:
  assumes "fortify rnd conts g playerId fromId toId count = (True, g')"
  shows "\<not> truthyStr (winnerId g) \<and> phase g = TURN_FORTIFY \<and>
         map_option pid (getCurrentPlayer g) = Some playerId \<and> fromId \<noteq> toId \<and>
         (\<exists>src dst m. getTerritory g fromId = Some src \<and> getTerritory g toId = Some dst \<and>
            ownerId src = Some playerId \<and> ownerId dst = Some playerId \<and>
            ownedPath g playerId fromId toId \<and>
            mathMax1 (orNum count 1) = Fin m \<and> 1 \<le> m \<and> 0 < troops src - m \<and>
            (troops src \<in> \<int> \<and> m \<in> \<int> \<longrightarrow> 1 \<le> troops src - m) \<and>
            g' = nextTurn rnd conts
                   (updTerritory toId (\<lambda>t. t\<lparr>troops := troops t + m\<rparr>)
                     (updTerritory fromId (\<lambda>t. t\<lparr>troops := troops t - m\<rparr>) g)))"
proof -
  from assms obtain src dst where t: "getTerritory g fromId = Some src" "getTerritory g toId = Some dst"
    by (cases "getTerritory g fromId"; cases "getTerritory g toId")
       (auto simp: fortify_def split: if_splits)
  from assms t obtain m where m: "mathMax1 (orNum count 1) = Fin m"
    by (cases "mathMax1 (orNum count 1)") (auto simp: fortify_def split: if_splits)
  from assms t m have f: "\<not> truthyStr (winnerId g)" "phase g = TURN_FORTIFY"
    "map_option pid (getCurrentPlayer g) = Some playerId" "fromId \<noteq> toId"
    "ownerId src = Some playerId" "ownerId dst = Some playerId"
    "isConnected g playerId fromId toId" "m < troops src"
    "g' = nextTurn rnd conts
                   (updTerritory toId (\<lambda>t. t\<lparr>troops := troops t + m\<rparr>)
                     (updTerritory fromId (\<lambda>t. t\<lparr>troops := troops t - m\<rparr>) g))"
    by (simp_all add: fortify_def Let_def split: if_splits)
  have int: "troops src \<in> \<int> \<and> m \<in> \<int> \<longrightarrow> 1 \<le> troops src - m"
  proof
    assume "troops src \<in> \<int> \<and> m \<in> \<int>"
    then obtain a b :: int where ab: "troops src = of_int a" "m = of_int b"
      by (auto elim!: Ints_cases)
    with f(8) have "b < a" by simp
    then have "1 \<le> a - b" by simp
    then have "(1 :: rat) \<le> of_int (a - b)" by (metis of_int_1_le_iff)
    with ab show "1 \<le> troops src - m" by simp
  qed
  from f(8) have pos: "0 < troops src - m" by simp
  from t m f(1-6) isConnected_ownedPath [OF f(7)] fortifyAmount_cases [OF m] pos int f(9)
  show ?thesis by blast
qed

text \<open>Two territories of a player that are not joined through the player's own
  territories cannot be fortified, whatever the adjacency of the map: in the example
  match every way from \<open>a\<close> to \<open>c\<close> leads through \<open>b\<close>, which \<open>p2\<close> owns.\<close>

lemma fortify_needs_ownedPath:
  "\<not> ownedPath g playerId fromId toId \<Longrightarrow>
   fst (fortify rnd conts g playerId fromId toId count) = False"
  using fortify_success [of rnd conts g playerId fromId toId count]
  by (cases "fortify rnd conts g playerId fromId toId count") auto

lemma fortify_across_enemy_fails:
  "fortify (\<lambda>k. 0) [] (exGame TURN_FORTIFY) ''p1'' ''a'' ''c'' (Fin 1)
     = (False, exGame TURN_FORTIFY)"
  by code_simp

text \<open>
  C8.  A fortify is to succeed only in \<open>TURN_FORTIFY\<close>, for the current player, between
  two distinct territories of that player joined through the player's own territories,
  moving at least one troop while leaving at least one troop in the source, and it ends
  the turn.  The source tests \<open>from.troops <= moveCount\<close> and never that the count is an
  integer: \<open>p1\<close> fortifies from \<open>d\<close> (3 troops) to the adjacent \<open>a\<close> with the count 2.5, the
  call succeeds, and \<open>d\<close> keeps half a troop.
\<close>

theorem fortify_fractional_count_leaves_half_troop:
  "fst (fortify (\<lambda>k. 0) [] (exGame TURN_FORTIFY) ''p1'' ''d'' ''a'' (Fin (5 / 2))) \<and>
   map_option troops
     (getTerritory (snd (fortify (\<lambda>k. 0) [] (exGame TURN_FORTIFY) ''p1'' ''d'' ''a'' (Fin (5 / 2))))
        ''d'') = Some (1 / 2) \<and>
   map_option ownerId
     (getTerritory (snd (fortify (\<lambda>k. 0) [] (exGame TURN_FORTIFY) ''p1'' ''d'' ''a'' (Fin (5 / 2))))
        ''d'') = Some (Some ''p1'')"
  by code_simp

section \<open>The troop invariant on integer counts\<close>

text \<open>
  With integer troop counts and integer arguments the three operations keep at least one
  troop on every owned territory; the invariant only breaks on counts that are not
  integers, which no operation rejects.
\<close>

lemma list_all_updFirst:
  "list_all Q xs \<Longrightarrow> (\<And>x. find P xs = Some x \<Longrightarrow> Q (f x)) \<Longrightarrow> list_all Q (updFirst P f xs)"
  by (induction xs) (auto split: if_splits)

lemma updFirst_twice:
  "(\<And>x. P x \<Longrightarrow> P (h x)) \<Longrightarrow> updFirst P f (updFirst P h xs) = updFirst P (\<lambda>x. f (h x)) xs"
  by (induction xs) auto

lemma updFirst_commute:
  "(\<And>x. P x \<Longrightarrow> \<not> Q x) \<Longrightarrow> (\<And>x. P (h x) = P x) \<Longrightarrow> (\<And>x. Q (f x) = Q x) \<Longrightarrow>
   updFirst P f (updFirst Q h xs) = updFirst Q h (updFirst P f xs)"
  by (induction xs) auto

lemma troopsInvariant_updTerritory:
  assumes "troopsInvariant g"
    and "\<And>x. getTerritory g t = Some x \<Longrightarrow> ownerId (h x) = None \<or> 1 \<le> troops (h x)"
  shows "troopsInvariant (updTerritory t h g)"
  using assms unfolding troopsInvariant_def updTerritory_def getTerritory_def
  by (simp add: list_all_updFirst)

lemma troopsInvariant_found:
  "troopsInvariant g \<Longrightarrow> getTerritory g t = Some x \<Longrightarrow> ownerId x = None \<or> 1 \<le> troops x"
  unfolding troopsInvariant_def getTerritory_def
  by (auto simp: list_all_iff find_Some_iff)

lemma gmap_nextTurn: "gmap (nextTurn rnd conts g) = gmap g"
  by (simp add: nextTurn_def grantTurnCardIfEligible_def startNewRound_def Let_def
        case_prod_unfold split: option.splits)

lemma int_gap:
  fixes a b :: rat
  assumes "a \<in> \<int>" "b \<in> \<int>" "b < a"
  shows "1 \<le> a - b"
proof -
  from assms(1,2) obtain x y :: int where xy: "a = of_int x" "b = of_int y"
    by (auto elim!: Ints_cases)
  with assms(3) have "y < x" by simp
  then have "1 \<le> x - y" by simp
  then have "(1 :: rat) \<le> of_int (x - y)" by (metis of_int_1_le_iff)
  with xy show ?thesis by simp
qed

text \<open>deploy adds at least one troop, whatever the count.\<close>

lemma deploy_preserves_troopsInvariant:
  assumes "troopsInvariant g"
  shows "troopsInvariant (snd (deploy conts g playerId territoryId count))"
proof (cases "fst (deploy conts g playerId territoryId count)")
  case False
  then have "snd (deploy conts g playerId territoryId count) = g"
    by (auto simp: deploy_def Let_def split: option.splits if_splits jsnum.splits)
  with assms show ?thesis by simp
next
  case True
  then obtain q a where a: "mathMax1 (orNum count 0) = Fin a"
    and s: "snd (deploy conts g playerId territoryId count)
              = deployAdvance conts (deployApply g playerId territoryId a) q"
    by (auto simp: deploy_def Let_def split: option.splits if_splits jsnum.splits)
  from a have "1 \<le> a" by (cases count) (auto simp: orNum_def split: if_splits)
  then have "troopsInvariant (updTerritory territoryId (\<lambda>t. t\<lparr>troops := troops t + a\<rparr>) g)"
    using troopsInvariant_found [OF assms]
    by (intro troopsInvariant_updTerritory [OF assms]) fastforce
  then have "troopsInvariant (deployApply g playerId territoryId a)"
    by (simp add: deployApply_def troopsInvariant_def updPlayer_fields)
  then show ?thesis
    by (simp add: s troopsInvariant_def gmap_deployAdvance)
qed

text \<open>fortify keeps the invariant when the source's troop count and the amount moved
  are integers.\<close>

lemma fortify_preserves_troopsInvariant:
  assumes inv: "troopsInvariant g"
    and src: "getTerritory g fromId = Some src" "troops src \<in> \<int>"
    and cnt: "mathMax1 (orNum count 1) = Fin m" "m \<in> \<int>"
  shows "troopsInvariant (snd (fortify rnd conts g playerId fromId toId count))"
proof (cases "fst (fortify rnd conts g playerId fromId toId count)")
  case False
  then have "snd (fortify rnd conts g playerId fromId toId count) = g"
    by (auto simp: fortify_def Let_def split: option.splits if_splits jsnum.splits)
  with inv show ?thesis by simp
next
  case True
  then have "fortify rnd conts g playerId fromId toId count
               = (True, snd (fortify rnd conts g playerId fromId toId count))"
    by (cases "fortify rnd conts g playerId fromId toId count") simp
  from fortify_success [OF this] src cnt(1)
  have m1: "1 \<le> m" and less: "0 < troops src - m" and ne: "fromId \<noteq> toId"
    and s: "snd (fortify rnd conts g playerId fromId toId count)
              = nextTurn rnd conts
                   (updTerritory toId (\<lambda>t. t\<lparr>troops := troops t + m\<rparr>)
                     (updTerritory fromId (\<lambda>t. t\<lparr>troops := troops t - m\<rparr>) g))"
    by auto
  from less have "m < troops src" by simp
  with src(2) cnt(2) have left: "1 \<le> troops src - m" by (intro int_gap)
  let ?g1 = "updTerritory fromId (\<lambda>t. t\<lparr>troops := troops t - m\<rparr>) g"
  have i1: "troopsInvariant ?g1"
    using src(1) left by (intro troopsInvariant_updTerritory [OF inv]) simp
  have "troopsInvariant (updTerritory toId (\<lambda>t. t\<lparr>troops := troops t + m\<rparr>) ?g1)"
    using troopsInvariant_found [OF i1] m1
    by (intro troopsInvariant_updTerritory [OF i1]) fastforce
  then show ?thesis by (simp add: s troopsInvariant_def gmap_nextTurn)
qed

text \<open>A resolved attack on a territory with an integer troop count keeps the invariant.\<close>

lemma attack_preserves_troopsInvariant:
  assumes inv: "troopsInvariant g"
    and dst: "getTerritory g toId = Some dst" and int: "troops dst \<in> \<int>"
    and pl: "playerId \<noteq> NEUTRAL_ID" "playerId \<noteq> []"
  shows "troopsInvariant (snd (attack rnd g playerId fromId toId requested))"
proof (cases "attackChecks g playerId fromId toId requested")
  case None
  with inv show ?thesis by (simp add: attack_def)
next
  case (Some r)
  then obtain src where frm: "getTerritory g fromId = Some src"
    and facts: "ownerId src = Some playerId" "1 \<le> r" "r \<le> troops src - 1"
      "ownerId dst \<noteq> None"
    using dst by (auto simp: attackChecks_Some_iff dest: truthyStr_not_None)
  define aL where "aL = fst (battleLosses rnd r dst)"
  define dL where "dL = snd (battleLosses rnd r dst)"
  define m where "m = max 1 (r - of_nat aL)"
  define g2 where "g2 = updTerritory toId (\<lambda>t. t\<lparr>troops := troops t - of_nat dL\<rparr>)
                   (updTerritory fromId (\<lambda>t. t\<lparr>troops := troops t - of_nat aL\<rparr>) g)"
  define g6 where "g6 = updTerritory toId (\<lambda>t. t\<lparr>troops := m\<rparr>)
                   (updTerritory fromId (\<lambda>t. t\<lparr>troops := troops t - m\<rparr>)
                     (updPlayer playerId (\<lambda>p. p\<lparr>conqueredThisTurn := True\<rparr>)
                       (updTerritory toId (\<lambda>t. t\<lparr>ownerId := Some playerId\<rparr>) g2)))"
  have run: "attack rnd g playerId fromId toId requested
               = (fst (attack rnd g playerId fromId toId requested),
                  snd (attack rnd g playerId fromId toId requested))" by simp
  from attack_outcome [OF Some frm dst pl run aL_def dL_def m_def g2_def g6_def]
  have branch: "gmap (snd (attack rnd g playerId fromId toId requested))
                  = (if troops dst - of_nat dL \<le> 0 then gmap g6 else gmap g2)"
    by (auto split: if_splits)
  have ne: "fromId \<noteq> toId" using Some pl(1) by (rule attack_source_not_target)
  have d1: "1 \<le> troops dst" using troopsInvariant_found [OF inv dst] facts(4) by simp
  have tot: "aL + dL = min (nat \<lfloor>r\<rfloor>) (if troops dst \<ge> 2 then 2 else 1)"
    using lossesSpec_total [of "attackerRoll rnd r" "defenderRoll rnd r dst"]
    by (simp add: aL_def dL_def battleLosses_def attackerRoll_def defenderRoll_def length_rollDice)
  have "aL \<le> nat \<lfloor>r\<rfloor>" using tot by linarith
  then have "int aL \<le> \<lfloor>r\<rfloor>" using facts(2) by linarith
  then have aLr: "of_nat aL \<le> r" by (metis le_floor_iff of_int_of_nat_eq)
  show ?thesis
  proof (cases "troops dst - of_nat dL \<le> 0")
    case False
    then have "of_nat dL < troops dst" by simp
    with int have left: "1 \<le> troops dst - of_nat dL" by (intro int_gap) simp_all
    let ?g1 = "updTerritory fromId (\<lambda>t. t\<lparr>troops := troops t - of_nat aL\<rparr>) g"
    have i1: "troopsInvariant ?g1"
      using frm facts(3) aLr by (intro troopsInvariant_updTerritory [OF inv]) simp
    have t1: "getTerritory ?g1 toId = Some dst"
      using dst ne by (simp add: getTerritory_updTerritory_other)
    have "troopsInvariant g2"
      unfolding g2_def using t1 left by (intro troopsInvariant_updTerritory [OF i1]) simp
    with False branch show ?thesis by (simp add: troopsInvariant_def)
  next
    case True
    have a0: "aL = 0"
      unfolding aL_def using facts(2) d1 True battleLosses_bounds(2) [of r dst rnd]
      by (simp add: dL_def)
    have mr: "m = r" using facts(2) by (simp add: m_def a0)
    have shape: "gmap g6 =
        updFirst (\<lambda>t. tid t = toId) (\<lambda>t. t\<lparr>ownerId := Some playerId, troops := m\<rparr>)
          (updFirst (\<lambda>t. tid t = fromId) (\<lambda>t. t\<lparr>troops := troops t - of_nat aL - m\<rparr>)
             (gmap g))"
    proof -
      let ?T = "\<lambda>t. tid t = toId" and ?F = "\<lambda>t. tid t = fromId"
      have "gmap g6 =
          updFirst ?T (\<lambda>t. t\<lparr>troops := m\<rparr>)
            (updFirst ?F (\<lambda>t. t\<lparr>troops := troops t - m\<rparr>)
              (updFirst ?T (\<lambda>t. t\<lparr>ownerId := Some playerId\<rparr>)
                (updFirst ?T (\<lambda>t. t\<lparr>troops := troops t - of_nat dL\<rparr>)
                  (updFirst ?F (\<lambda>t. t\<lparr>troops := troops t - of_nat aL\<rparr>) (gmap g)))))"
        by (simp add: g6_def g2_def updTerritory_def updPlayer_def)
      also have "\<dots> =
          updFirst ?T (\<lambda>t. t\<lparr>troops := m\<rparr>)
            (updFirst ?F (\<lambda>t. t\<lparr>troops := troops t - m\<rparr>)
              (updFirst ?T (\<lambda>t. t\<lparr>troops := troops t - of_nat dL, ownerId := Some playerId\<rparr>)
                (updFirst ?F (\<lambda>t. t\<lparr>troops := troops t - of_nat aL\<rparr>) (gmap g))))"
        by (simp add: updFirst_twice)
      also have "\<dots> =
          updFirst ?T (\<lambda>t. t\<lparr>troops := m\<rparr>)
            (updFirst ?T (\<lambda>t. t\<lparr>troops := troops t - of_nat dL, ownerId := Some playerId\<rparr>)
              (updFirst ?F (\<lambda>t. t\<lparr>troops := troops t - m\<rparr>)
                (updFirst ?F (\<lambda>t. t\<lparr>troops := troops t - of_nat aL\<rparr>) (gmap g))))"
        using ne
        by (subst updFirst_commute [of ?F ?T "\<lambda>t. t\<lparr>troops := troops t - of_nat dL, ownerId := Some playerId\<rparr>"
              "\<lambda>t. t\<lparr>troops := troops t - m\<rparr>"]) simp_all
      also have "\<dots> =
          updFirst ?T (\<lambda>t. t\<lparr>ownerId := Some playerId, troops := m\<rparr>)
            (updFirst ?F (\<lambda>t. t\<lparr>troops := troops t - of_nat aL - m\<rparr>) (gmap g))"
        by (simp add: updFirst_twice)
      finally show ?thesis .
    qed
    have m1: "1 \<le> m" by (simp add: m_def)
    have l1: "list_all (\<lambda>t. ownerId t = None \<or> 1 \<le> troops t)
                (updFirst (\<lambda>t. tid t = fromId) (\<lambda>t. t\<lparr>troops := troops t - of_nat aL - m\<rparr>)
                   (gmap g))"
      using inv frm facts(3) unfolding troopsInvariant_def getTerritory_def
      by (intro list_all_updFirst) (simp_all add: a0 mr)
    have "list_all (\<lambda>t. ownerId t = None \<or> 1 \<le> troops t) (gmap g6)"
      unfolding shape by (rule list_all_updFirst [OF l1]) (simp add: m1)
    with True branch show ?thesis by (simp add: troopsInvariant_def)
  qed
qed

text \<open>
  C9.  Every operation is to preserve the invariant that an owned territory holds at
  least one troop; fortify in particular is to leave at least one troop in the source.
  The invariant holds in the example match; \<open>p1\<close> fortifies from \<open>a\<close> (4 troops) to \<open>d\<close>
  with the count 3.5, the call succeeds, and afterwards \<open>a\<close> is owned with half a troop.
\<close>

theorem fortify_breaks_troops_invariant:
  "troopsInvariant (exGame TURN_FORTIFY) \<and>
   fst (fortify (\<lambda>k. 0) [] (exGame TURN_FORTIFY) ''p1'' ''a'' ''d'' (Fin (7 / 2))) \<and>
   \<not> troopsInvariant (snd (fortify (\<lambda>k. 0) [] (exGame TURN_FORTIFY) ''p1'' ''a'' ''d'' (Fin (7 / 2))))"
  by code_simp


end
